theory Spec2Isabelle
  imports Complex_Main "HOL-Library.Sublist" "HOL-Library.List_Lexorder" "HOL-Library.Multiset"
begin

section \<open>The music-news aggregation endpoint\<close>

text \<open>
  A shallow embedding of the serverless handler of the music-news repository: the
  variant with the remote feed table, the de-duplication and the translation limit
  (\<^verbatim>\<open>src/unnamed/part_001\<close>). The two older variants of the same handler
  (\<^verbatim>\<open>src/api/news.js\<close>, \<^verbatim>\<open>src/unnamed/part_000\<close>) share its genre
  rules, its \<^verbatim>\<open>hours\<close> computation and its normalisation of feed entries, and
  lack the de-duplication, the translation limit and the feed table.
\<close>

subsection \<open>JavaScript strings\<close>

text \<open>
  A JavaScript string is a sequence of UTF-16 code units; \<^verbatim>\<open>length\<close>,
  \<^verbatim>\<open>slice\<close>, \<^verbatim>\<open>js_includes\<close> and the regular expressions of the source
  (none has the \<^verbatim>\<open>u\<close> flag) all work on code units. A code unit is a natural
  number here, and \<open>u16\<close> embeds an ASCII literal.
\<close>

type_synonym jsstring = "nat list"

definition u16 :: "string \<Rightarrow> jsstring" where
  "u16 s = map of_char s"

text \<open>
  \<^verbatim>\<open>String.prototype.toLowerCase\<close>, one code unit at a time. The table holds the
  ASCII capitals and the two other code units whose lower case contains an ASCII letter
  (the Kelvin sign and the dotted capital I); every other code unit is left as it is.
  Cased letters outside ASCII lower to letters outside ASCII, which no keyword below
  contains, so the classification agrees with the source's on them.
\<close>

definition lower_unit :: "nat \<Rightarrow> jsstring" where
  "lower_unit c =
     (if 65 \<le> c \<and> c \<le> 90 then [c + 32]
      else if c = 0x212A then [107]
      else if c = 0x0130 then [105, 0x0307]
      else [c])"

definition toLowerCase :: "jsstring \<Rightarrow> jsstring" where
  "toLowerCase s = concat (map lower_unit s)"

text \<open>\<^verbatim>\<open>text.includes(kw)\<close>: \<open>kw\<close> occurs in \<open>text\<close> at some position.\<close>

fun js_includes :: "jsstring \<Rightarrow> jsstring \<Rightarrow> bool" where
  "js_includes [] kw = (kw = [])"
| "js_includes (c # cs) kw = (prefix kw (c # cs) \<or> js_includes cs kw)"

subsection \<open>Genre rules and the classifier\<close>

record genre_rule =
  g_name :: jsstring
  g_keywords :: "jsstring list"

text \<open>
  The table \<^verbatim>\<open>GENRES\<close>. The keywords written in kana and kanji are given by their
  code units, in the order of the source.
\<close>

definition GENRES :: "genre_rule list" where
  "GENRES =
   [\<lparr>g_name = u16 ''Techno'', g_keywords = [u16 ''techno'', [0x30C6, 0x30AF, 0x30CE]]\<rparr>,
    \<lparr>g_name = u16 ''House'', g_keywords = [u16 ''house'', [0x30CF, 0x30A6, 0x30B9], u16 ''deep house'',
       [0x30C7, 0x30A3, 0x30FC, 0x30D7, 0x30CF, 0x30A6, 0x30B9]]\<rparr>,
    \<lparr>g_name = u16 ''Drum & Bass'', g_keywords = [u16 ''drum & bass'', u16 ''dnb'', u16 ''drum and bass'',
       [0x30C9, 0x30E9, 0x30E0, 0x30F3, 0x30D9, 0x30FC, 0x30B9]]\<rparr>,
    \<lparr>g_name = u16 ''Dubstep'', g_keywords = [u16 ''dubstep'',
       [0x30C0, 0x30D6, 0x30B9, 0x30C6, 0x30C3, 0x30D7]]\<rparr>,
    \<lparr>g_name = u16 ''UK Garage'', g_keywords = [u16 ''ukg'', u16 ''garage'', u16 ''uk garage'',
       u16 ''2-step'', u16 ''2step'', [0x30AC, 0x30E9, 0x30FC, 0x30B8],
       [0x30C4, 0x30FC, 0x30B9, 0x30C6, 0x30C3, 0x30D7]]\<rparr>,
    \<lparr>g_name = u16 ''Ambient'', g_keywords = [u16 ''ambient'',
       [0x30A2, 0x30F3, 0x30D3, 0x30A8, 0x30F3, 0x30C8]]\<rparr>,
    \<lparr>g_name = u16 ''Experimental'', g_keywords = [u16 ''experimental'', u16 ''avant'',
       [0x30A2, 0x30F4, 0x30A1, 0x30F3], [0x5B9F, 0x9A13], u16 ''noise'',
       [0x30CE, 0x30A4, 0x30BA]]\<rparr>,
    \<lparr>g_name = u16 ''Hip-Hop'', g_keywords = [u16 ''hip-hop'', u16 ''hip hop'', u16 ''rap'',
       [0x30E9, 0x30C3, 0x30D7], [0x30D2, 0x30C3, 0x30D7, 0x30DB, 0x30C3, 0x30D7]]\<rparr>,
    \<lparr>g_name = u16 ''Metal'', g_keywords = [u16 ''metal'', u16 ''hardcore'',
       [0x30CF, 0x30FC, 0x30C9, 0x30B3, 0x30A2], [0x30E1, 0x30BF, 0x30EB]]\<rparr>,
    \<lparr>g_name = u16 ''Rock'', g_keywords = [u16 ''rock'', u16 ''indie'', u16 ''punk'',
       [0x30ED, 0x30C3, 0x30AF], [0x30D1, 0x30F3, 0x30AF]]\<rparr>,
    \<lparr>g_name = u16 ''Pop'', g_keywords = [u16 ''pop'', [0x30A2, 0x30A4, 0x30C9, 0x30EB],
       [0x30B7, 0x30F3, 0x30B0, 0x30EB], u16 ''mv'', u16 ''music video'']\<rparr>,
    \<lparr>g_name = u16 ''Japan'', g_keywords = [[0x65E5, 0x672C], [0x6771, 0x4EAC], [0x6E0B, 0x8C37],
       u16 ''j-pop'', [0x90A6, 0x697D]]\<rparr>]"

text \<open>
  \<^verbatim>\<open>pickGenre\<close>: the inner loop over the keywords of one rule, the outer loop over
  the rules, and the fallback \<^verbatim>\<open>fallback || "Other"\<close> (the empty string is falsy).
\<close>

fun match_keywords :: "jsstring \<Rightarrow> jsstring list \<Rightarrow> bool" where
  "match_keywords text [] = False"
| "match_keywords text (kw # kws) =
     (if js_includes text (toLowerCase kw) then True else match_keywords text kws)"

fun scan_rules :: "jsstring \<Rightarrow> genre_rule list \<Rightarrow> jsstring option" where
  "scan_rules text [] = None"
| "scan_rules text (g # gs) =
     (if match_keywords text (g_keywords g) then Some (g_name g) else scan_rules text gs)"

definition pickGenre :: "jsstring \<Rightarrow> jsstring \<Rightarrow> jsstring \<Rightarrow> jsstring" where
  "pickGenre title source fallback =
     (let text = toLowerCase (title @ u16 '' '' @ source)
      in case scan_rules text GENRES of
           Some g \<Rightarrow> g
         | None \<Rightarrow> (if fallback = [] then u16 ''Other'' else fallback))"

text \<open>
  The classifier in the words of the specification: the name of the first rule, in the
  declared order, one of whose keywords occurs in the text; else the fallback genre when
  it is not empty; else \<^verbatim>\<open>Other\<close>.
\<close>

definition classify_spec :: "genre_rule list \<Rightarrow> jsstring \<Rightarrow> jsstring \<Rightarrow> jsstring" where
  "classify_spec rules text fallback =
     (case find (\<lambda>g. \<exists>kw \<in> set (g_keywords g). sublist kw text) rules of
        Some g \<Rightarrow> g_name g
      | None \<Rightarrow> (if fallback = [] then u16 ''Other'' else fallback))"

subsection \<open>JavaScript numbers\<close>

text \<open>
  A JavaScript number is \<^verbatim>\<open>NaN\<close>, an infinity or a finite value. Finite values are
  exact rationals here: the rounding to the nearest double is not modelled (and neither is
  the sign of zero, which no comparison of the handler tells apart). The handler's
  arithmetic on a request whose \<^verbatim>\<open>hours\<close> converts to an integer only meets integers
  below \<open>2^53\<close>, which doubles represent exactly.
\<close>

datatype jsnum = NaN | PosInf | NegInf | Fin rat

text \<open>The relational operator \<^verbatim>\<open><\<close>: false as soon as one side is \<^verbatim>\<open>NaN\<close>.\<close>

fun js_less :: "jsnum \<Rightarrow> jsnum \<Rightarrow> bool" where
  "js_less NaN y = False"
| "js_less x NaN = False"
| "js_less (Fin a) (Fin b) = (a < b)"
| "js_less NegInf y = (y \<noteq> NegInf)"
| "js_less x PosInf = (x \<noteq> PosInf)"
| "js_less PosInf y = False"
| "js_less x NegInf = False"

text \<open>\<^verbatim>\<open>Math.min\<close> and \<^verbatim>\<open>Math.max\<close> of two arguments: \<^verbatim>\<open>NaN\<close> if either is.\<close>

definition Math_min :: "jsnum \<Rightarrow> jsnum \<Rightarrow> jsnum" where
  "Math_min a b = (if a = NaN \<or> b = NaN then NaN else if js_less b a then b else a)"

definition Math_max :: "jsnum \<Rightarrow> jsnum \<Rightarrow> jsnum" where
  "Math_max a b = (if a = NaN \<or> b = NaN then NaN else if js_less a b then b else a)"

definition js_sign :: "jsnum \<Rightarrow> int" where
  "js_sign x = (case x of NaN \<Rightarrow> 0 | PosInf \<Rightarrow> 1 | NegInf \<Rightarrow> - 1
                | Fin a \<Rightarrow> (if a < 0 then - 1 else if a = 0 then 0 else 1))"

text \<open>The operators \<^verbatim>\<open>*\<close> and \<^verbatim>\<open>-\<close>.\<close>

fun js_times :: "jsnum \<Rightarrow> jsnum \<Rightarrow> jsnum" where
  "js_times NaN y = NaN"
| "js_times x NaN = NaN"
| "js_times (Fin a) (Fin b) = Fin (a * b)"
| "js_times x y =
     (if js_sign x * js_sign y = 0 then NaN
      else if 0 < js_sign x * js_sign y then PosInf else NegInf)"

fun js_minus :: "jsnum \<Rightarrow> jsnum \<Rightarrow> jsnum" where
  "js_minus NaN y = NaN"
| "js_minus x NaN = NaN"
| "js_minus (Fin a) (Fin b) = Fin (a - b)"
| "js_minus PosInf y = (if y = PosInf then NaN else PosInf)"
| "js_minus NegInf y = (if y = NegInf then NaN else NegInf)"
| "js_minus x PosInf = NegInf"
| "js_minus x NegInf = PosInf"

definition js_negate :: "jsnum \<Rightarrow> jsnum" where
  "js_negate x = (case x of NaN \<Rightarrow> NaN | PosInf \<Rightarrow> NegInf | NegInf \<Rightarrow> PosInf | Fin a \<Rightarrow> Fin (- a))"

subsection \<open>White space and the conversion of a string to a number\<close>

text \<open>
  The code units that \<^verbatim>\<open>\s\<close>, \<^verbatim>\<open>trim()\<close> and the number conversion treat as
  white space (white space and line terminators of the language).
\<close>

definition is_space :: "nat \<Rightarrow> bool" where
  "is_space c \<longleftrightarrow>
     c \<in> {0x09, 0x0A, 0x0B, 0x0C, 0x0D, 0x20, 0xA0, 0x1680, 0x2028, 0x2029, 0x202F, 0x205F,
          0x3000, 0xFEFF}
     \<or> (0x2000 \<le> c \<and> c \<le> 0x200A)"

definition trim :: "jsstring \<Rightarrow> jsstring" where
  "trim s = rev (dropWhile is_space (rev (dropWhile is_space s)))"

definition is_digit :: "nat \<Rightarrow> bool" where
  "is_digit c \<longleftrightarrow> 48 \<le> c \<and> c \<le> 57"

definition digits_value :: "jsstring \<Rightarrow> nat" where
  "digits_value ds = foldl (\<lambda>a c. 10 * a + (c - 48)) 0 ds"

text \<open>
  The exponent part of a decimal literal: nothing, or \<^verbatim>\<open>e\<close> or \<^verbatim>\<open>E\<close>, an
  optional sign and at least one digit. \<open>None\<close> when the text is neither.
\<close>

definition exponent_part :: "jsstring \<Rightarrow> int option" where
  "exponent_part s =
     (case s of
        [] \<Rightarrow> Some 0
      | c # r \<Rightarrow>
          if c = 101 \<or> c = 69 then
            (let neg = (case r of [] \<Rightarrow> False | d # r' \<Rightarrow> d = 45);
                 ds = (case r of [] \<Rightarrow> [] | d # r' \<Rightarrow> if d = 43 \<or> d = 45 then r' else r)
             in if ds \<noteq> [] \<and> list_all is_digit ds
                then Some (if neg then - int (digits_value ds) else int (digits_value ds))
                else None)
          else None)"

text \<open>
  An unsigned decimal literal: \<^verbatim>\<open>Infinity\<close>, or digits with an optional fraction and
  an optional exponent, where the integer part or the fraction (not both) may be empty.
\<close>

definition unsigned_decimal :: "jsstring \<Rightarrow> jsnum" where
  "unsigned_decimal s =
     (if s = u16 ''Infinity'' then PosInf
      else
        let ip = takeWhile is_digit s;
            r1 = dropWhile is_digit s;
            dot = (case r1 of [] \<Rightarrow> False | c # r \<Rightarrow> c = 46);
            fp = (if dot then takeWhile is_digit (tl r1) else []);
            r2 = (if dot then dropWhile is_digit (tl r1) else r1)
        in if ip = [] \<and> fp = [] then NaN
           else case exponent_part r2 of
                  None \<Rightarrow> NaN
                | Some e \<Rightarrow>
                    Fin ((of_nat (digits_value ip) + of_nat (digits_value fp) / 10 ^ length fp)
                         * (if 0 \<le> e then 10 ^ nat e else 1 / 10 ^ nat (- e))))"

definition signed_decimal :: "jsstring \<Rightarrow> jsnum" where
  "signed_decimal s =
     (case s of
        [] \<Rightarrow> NaN
      | c # r \<Rightarrow>
          if c = 43 then unsigned_decimal r
          else if c = 45 then js_negate (unsigned_decimal r)
          else unsigned_decimal s)"

text \<open>Hexadecimal, octal and binary integer literals (\<^verbatim>\<open>0x\<close>, \<^verbatim>\<open>0o\<close>, \<^verbatim>\<open>0b\<close>), unsigned.\<close>

definition radix_digit :: "nat \<Rightarrow> nat option" where
  "radix_digit c =
     (if 48 \<le> c \<and> c \<le> 57 then Some (c - 48)
      else if 97 \<le> c \<and> c \<le> 102 then Some (c - 87)
      else if 65 \<le> c \<and> c \<le> 70 then Some (c - 55)
      else None)"

definition radix_literal :: "nat \<Rightarrow> jsstring \<Rightarrow> jsnum" where
  "radix_literal b ds =
     (if ds \<noteq> [] \<and> list_all (\<lambda>c. case radix_digit c of None \<Rightarrow> False | Some d \<Rightarrow> d < b) ds
      then Fin (of_nat (foldl (\<lambda>a c. b * a + the (radix_digit c)) 0 ds))
      else NaN)"

definition non_decimal :: "jsstring \<Rightarrow> jsnum option" where
  "non_decimal s =
     (case s of
        z # p # ds \<Rightarrow>
          if z \<noteq> 48 then None
          else if p = 120 \<or> p = 88 then Some (radix_literal 16 ds)
          else if p = 111 \<or> p = 79 then Some (radix_literal 8 ds)
          else if p = 98 \<or> p = 66 then Some (radix_literal 2 ds)
          else None
      | _ \<Rightarrow> None)"

text \<open>
  The conversion of a string to a number: white space is trimmed, the empty string is
  \<open>0\<close>, a numeric literal is its value, and anything else is \<^verbatim>\<open>NaN\<close>.
\<close>

definition StringToNumber :: "jsstring \<Rightarrow> jsnum" where
  "StringToNumber s =
     (let t = trim s
      in if t = [] then Fin 0
         else case non_decimal t of Some r \<Rightarrow> r | None \<Rightarrow> signed_decimal t)"

subsection \<open>The \<^verbatim>\<open>hours\<close> parameter\<close>

text \<open>
  A query parameter is a string, or an array of strings when the query repeats the name.
  \<^verbatim>\<open>Number\<close> converts an array through its \<^verbatim>\<open>toString\<close>, the elements joined by
  commas.
\<close>

datatype qvalue = QStr jsstring | QArr "jsstring list"

fun js_join :: "jsstring list \<Rightarrow> jsstring" where
  "js_join [] = []"
| "js_join [x] = x"
| "js_join (x # y # r) = x @ [44] @ js_join (y # r)"

definition Number_of :: "qvalue \<Rightarrow> jsnum" where
  "Number_of v = (case v of QStr s \<Rightarrow> StringToNumber s | QArr xs \<Rightarrow> StringToNumber (js_join xs))"

text \<open>
  \<^verbatim>\<open>Math.max(1, Math.min(72, Number(req.query?.hours ?? 24)))\<close>; \<open>None\<close> is the absent
  parameter.
\<close>

definition handler_hours :: "qvalue option \<Rightarrow> jsnum" where
  "handler_hours q =
     Math_max (Fin 1) (Math_min (Fin 72) (case q of None \<Rightarrow> Fin 24 | Some v \<Rightarrow> Number_of v))"

text \<open>\<^verbatim>\<open>Date.now() - hours * 60 * 60 * 1000\<close>, the lower bound of the time window.\<close>

definition handler_since :: "int \<Rightarrow> jsnum \<Rightarrow> jsnum" where
  "handler_since now hours =
     js_minus (Fin (of_int now)) (js_times (js_times (js_times hours (Fin 60)) (Fin 60)) (Fin 1000))"

text \<open>What the specification asks of the value: an integer between 1 and 72.\<close>

definition integer_in_1_72 :: "jsnum \<Rightarrow> bool" where
  "integer_in_1_72 x = (case x of Fin r \<Rightarrow> of_int \<lfloor>r\<rfloor> = r \<and> 1 \<le> r \<and> r \<le> 72 | _ \<Rightarrow> False)"

subsection \<open>Feeds, raw entries and items\<close>

text \<open>A feed descriptor \<^verbatim>\<open>{source, url, defaultGenre}\<close>.\<close>

record feed =
  f_source :: jsstring
  f_url :: jsstring
  f_defaultGenre :: jsstring

text \<open>
  An entry as the feed parser delivers it. Every field the handler reads is a string or
  is absent (\<open>None\<close>, the \<^verbatim>\<open>undefined\<close> of the source).
\<close>

record raw_entry =
  r_isoDate :: "jsstring option"
  r_pubDate :: "jsstring option"
  r_published :: "jsstring option"
  r_updated :: "jsstring option"
  r_title :: "jsstring option"
  r_link :: "jsstring option"
  r_guid :: "jsstring option"
  r_contentSnippet :: "jsstring option"
  r_summary :: "jsstring option"

text \<open>The outcome of \<^verbatim>\<open>parser.parseURL(f.url)\<close>: it throws, or it delivers the entries.\<close>

datatype fetch_result = FetchFailed | Fetched "raw_entry list"

text \<open>
  The item the handler builds. \<^verbatim>\<open>publishedAt\<close> and \<^verbatim>\<open>summary\<close> may be
  \<^verbatim>\<open>null\<close> (\<open>None\<close>). The properties \<^verbatim>\<open>titleJa\<close> and \<^verbatim>\<open>summaryJa\<close> do not exist
  until the translation stage assigns them (outer \<open>None\<close>); once assigned they hold a
  string or \<^verbatim>\<open>null\<close>.
\<close>

record item =
  it_id :: jsstring
  it_title :: jsstring
  it_url :: jsstring
  it_source :: jsstring
  it_publishedAt :: "jsstring option"
  it_summary :: "jsstring option"
  it_fallbackGenre :: jsstring
  it_titleJa :: "jsstring option option"
  it_summaryJa :: "jsstring option option"

text \<open>
  \<^verbatim>\<open>a || b\<close> on values that are strings or absent: the empty string and the absent
  value are falsy. \<open>or_empty\<close> is \<^verbatim>\<open>a || ""\<close>.
\<close>

definition truthy :: "jsstring option \<Rightarrow> bool" where
  "truthy a = (case a of None \<Rightarrow> False | Some s \<Rightarrow> s \<noteq> [])"

definition js_or :: "jsstring option \<Rightarrow> jsstring option \<Rightarrow> jsstring option" where
  "js_or a b = (if truthy a then a else b)"

definition or_empty :: "jsstring option \<Rightarrow> jsstring" where
  "or_empty a = (case a of None \<Rightarrow> [] | Some s \<Rightarrow> s)"

subsection \<open>Dates\<close>

text \<open>
  How \<^verbatim>\<open>new Date(s)\<close> reads a string is left to the JavaScript engine for every format
  but one, so the reading is a parameter of the model: \<open>dateParse s\<close> is the time value
  in milliseconds, or \<open>None\<close> for an invalid date (whose \<^verbatim>\<open>getTime()\<close> is
  \<^verbatim>\<open>NaN\<close>).
\<close>

type_synonym date_parser = "jsstring \<Rightarrow> int option"

definition getTime :: "date_parser \<Rightarrow> jsstring \<Rightarrow> jsnum" where
  "getTime dateParse s = (case dateParse s of None \<Rightarrow> NaN | Some ms \<Rightarrow> Fin (of_int ms))"

definition isFinite :: "jsnum \<Rightarrow> bool" where
  "isFinite x = (case x of Fin r \<Rightarrow> True | _ \<Rightarrow> False)"

text \<open>
  \<^verbatim>\<open>Date.prototype.toISOString\<close>: the UTC calendar date and time of a time value,
  \<^verbatim>\<open>YYYY-MM-DDTHH:mm:ss.sssZ\<close>, the year with a sign and six digits outside 0 to 9999.
\<close>

definition digit :: "int \<Rightarrow> nat" where
  "digit n = nat (48 + n mod 10)"

definition pad2 :: "int \<Rightarrow> jsstring" where
  "pad2 n = [digit (n div 10), digit n]"

definition pad3 :: "int \<Rightarrow> jsstring" where
  "pad3 n = [digit (n div 100), digit (n div 10), digit n]"

definition pad4 :: "int \<Rightarrow> jsstring" where
  "pad4 n = [digit (n div 1000), digit (n div 100), digit (n div 10), digit n]"

definition pad6 :: "int \<Rightarrow> jsstring" where
  "pad6 n = [digit (n div 100000), digit (n div 10000), digit (n div 1000), digit (n div 100),
             digit (n div 10), digit n]"

definition year_string :: "int \<Rightarrow> jsstring" where
  "year_string y =
     (if 0 \<le> y \<and> y \<le> 9999 then pad4 y
      else (if y < 0 then [45] else [43]) @ pad6 \<bar>y\<bar>)"

definition toISOString :: "int \<Rightarrow> jsstring" where
  "toISOString t =
     (let day = t div 86400000;
          ms = t mod 86400000;
          z = day + 719468;
          era = z div 146097;
          doe = z - era * 146097;
          yoe = (doe - doe div 1460 + doe div 36524 - doe div 146096) div 365;
          doy = doe - (365 * yoe + yoe div 4 - yoe div 100);
          mp = (5 * doy + 2) div 153;
          d = doy - (153 * mp + 2) div 5 + 1;
          m = (if mp < 10 then mp + 3 else mp - 9);
          y = yoe + era * 400 + (if m \<le> 2 then 1 else 0)
      in year_string y @ [45] @ pad2 m @ [45] @ pad2 d @ [84]
         @ pad2 (ms div 3600000) @ [58] @ pad2 (ms div 60000 mod 60) @ [58]
         @ pad2 (ms div 1000 mod 60) @ [46] @ pad3 (ms mod 1000) @ [90])"

text \<open>\<^verbatim>\<open>toIso(d)\<close> on a string: the ISO form of the date, or \<^verbatim>\<open>null\<close> if it is invalid.\<close>

definition toIso :: "date_parser \<Rightarrow> jsstring \<Rightarrow> jsstring option" where
  "toIso dateParse d = (case dateParse d of None \<Rightarrow> None | Some ms \<Rightarrow> Some (toISOString ms))"

subsection \<open>Normalisation of one entry\<close>

text \<open>\<^verbatim>\<open>replace(/\s+/g, " ")\<close>: every run of white space becomes one space.\<close>

fun collapse_ws :: "bool \<Rightarrow> jsstring \<Rightarrow> jsstring" where
  "collapse_ws in_run [] = []"
| "collapse_ws in_run (c # cs) =
     (if is_space c then (if in_run then collapse_ws True cs else 32 # collapse_ws True cs)
      else c # collapse_ws False cs)"

definition entry_summary :: "raw_entry \<Rightarrow> jsstring option" where
  "entry_summary e =
     (let s = take 240 (trim (collapse_ws False (or_empty (js_or (r_contentSnippet e) (r_summary e)))))
      in if s = [] then None else Some s)"

text \<open>
  The body of the loop over the entries of one feed: \<open>None\<close> when the entry is skipped
  (\<^verbatim>\<open>continue\<close>), the pushed item otherwise.
\<close>

definition normalize :: "date_parser \<Rightarrow> jsnum \<Rightarrow> feed \<Rightarrow> raw_entry \<Rightarrow> item option" where
  "normalize dateParse since f e =
     (let publishedRaw = js_or (js_or (js_or (r_isoDate e) (r_pubDate e)) (r_published e)) (r_updated e);
          publishedMs = (if truthy publishedRaw then getTime dateParse (or_empty publishedRaw) else NaN)
      in if \<not> isFinite publishedMs \<or> js_less publishedMs since then None
         else
           let title = trim (or_empty (r_title e));
               url = trim (or_empty (js_or (r_link e) (r_guid e)))
           in if title = [] \<or> url = [] then None
              else Some \<lparr>it_id = f_source f @ u16 ''::'' @ url,
                         it_title = title,
                         it_url = url,
                         it_source = f_source f,
                         it_publishedAt = toIso dateParse (or_empty publishedRaw),
                         it_summary = entry_summary e,
                         it_fallbackGenre = f_defaultGenre f,
                         it_titleJa = None,
                         it_summaryJa = None\<rparr>)"

text \<open>
  One feed: a failed fetch is caught and logged and contributes nothing; a fetched feed
  contributes the items of its entries, in order.
\<close>

definition feed_items :: "date_parser \<Rightarrow> jsnum \<Rightarrow> feed \<times> fetch_result \<Rightarrow> item list" where
  "feed_items dateParse since fr =
     (case snd fr of
        FetchFailed \<Rightarrow> []
      | Fetched entries \<Rightarrow> List.map_filter (normalize dateParse since (fst fr)) entries)"

subsection \<open>Sorting and de-duplication\<close>

text \<open>
  The comparator is \<^verbatim>\<open>(b.publishedAt || "").localeCompare(a.publishedAt || "")\<close>.
  \<^verbatim>\<open>localeCompare\<close> is modelled by the lexicographic order on code units, with which
  it agrees on the strings \<^verbatim>\<open>toISOString\<close> produces for the years 0 to 9999 (digits at
  the same positions). \<^verbatim>\<open>Array.prototype.sort\<close> is stable, so its result is the one
  of the insertion sort below: an item goes behind the items with a strictly greater key
  and before the others.
\<close>

definition published_key :: "item \<Rightarrow> jsstring" where
  "published_key a = or_empty (it_publishedAt a)"

fun insert_desc :: "item \<Rightarrow> item list \<Rightarrow> item list" where
  "insert_desc x [] = [x]"
| "insert_desc x (y # ys) =
     (if published_key x < published_key y then y # insert_desc x ys else x # y # ys)"

definition sort_newest_first :: "item list \<Rightarrow> item list" where
  "sort_newest_first xs = foldr insert_desc xs []"

text \<open>The loop with the set \<^verbatim>\<open>seen\<close> of the urls met so far.\<close>

fun dedupe :: "jsstring set \<Rightarrow> item list \<Rightarrow> item list" where
  "dedupe seen [] = []"
| "dedupe seen (x # xs) =
     (if it_url x \<in> seen then dedupe seen xs else x # dedupe (insert (it_url x) seen) xs)"

text \<open>
  The items of a request before translation: the feeds in the order in which their
  fetches settle, sorted and de-duplicated.
\<close>

definition aggregate :: "date_parser \<Rightarrow> jsnum \<Rightarrow> (feed \<times> fetch_result) list \<Rightarrow> item list" where
  "aggregate dateParse since settled =
     dedupe {} (sort_newest_first (concat (map (feed_items dateParse since) settled)))"

subsection \<open>Translation: eligibility, cache and provider\<close>

text \<open>
  \<^verbatim>\<open>looksEnglish\<close>: the ratio of ASCII letters to code units that are not white space
  (1 if there is none) exceeds 0.45. The source divides doubles; for the counts of a
  string (below \<open>2^32\<close>) the quotient exceeds the double nearest to 0.45 exactly when
  \<open>20 * letters > 9 * nonSpace\<close>, which is what is written here.
\<close>

definition is_ascii_letter :: "nat \<Rightarrow> bool" where
  "is_ascii_letter c \<longleftrightarrow> (65 \<le> c \<and> c \<le> 90) \<or> (97 \<le> c \<and> c \<le> 122)"

definition looksEnglish :: "jsstring \<Rightarrow> bool" where
  "looksEnglish s =
     (let letters = length (filter is_ascii_letter s);
          nonSpace0 = length (filter (\<lambda>c. \<not> is_space c) s);
          nonSpace = (if nonSpace0 = 0 then 1 else nonSpace0)
      in 9 * nonSpace < 20 * letters)"

text \<open>The cache \<^verbatim>\<open>tlCache\<close>: key \<open>\<mapsto>\<close> \<^verbatim>\<open>{ t, v: { titleJa, summaryJa } }\<close>.\<close>

record tl_entry =
  tl_t :: int
  tl_titleJa :: "jsstring option"
  tl_summaryJa :: "jsstring option"

type_synonym tl_cache = "jsstring \<rightharpoonup> tl_entry"

definition TL_TTL_MS :: int where
  "TL_TTL_MS = 6 * 60 * 60 * 1000"

definition TRANSLATE_LIMIT :: nat where
  "TRANSLATE_LIMIT = 40"

definition cache_key :: "item \<Rightarrow> jsstring" where
  "cache_key t = it_title t @ u16 ''|||'' @ or_empty (it_summary t)"

text \<open>\<^verbatim>\<open>hit && now - hit.t < TL_TTL_MS\<close>: the live entry of a key, if there is one.\<close>

definition live_hit :: "int \<Rightarrow> tl_cache \<Rightarrow> jsstring \<Rightarrow> tl_entry option" where
  "live_hit now c k =
     (case c k of
        None \<Rightarrow> None
      | Some hit \<Rightarrow> if now - tl_t hit < TL_TTL_MS then Some hit else None)"

text \<open>
  The items are objects that \<^verbatim>\<open>deduped\<close>, \<^verbatim>\<open>targets\<close> and
  \<^verbatim>\<open>limitedTargets\<close> share, and the translation stage assigns to them in place. The
  model keeps the objects in one list, the heap, which is \<^verbatim>\<open>deduped\<close> itself; an
  object's address is its position there, and \<^verbatim>\<open>targets\<close> and
  \<^verbatim>\<open>limitedTargets\<close> are lists of addresses.

  The first loop runs over \<^verbatim>\<open>limitedTargets\<close> from position \<open>i\<close>: a live cache hit
  is applied to the object; a miss appends \<^verbatim>\<open>[i, key]\<close> to \<^verbatim>\<open>index\<close> and the title
  and the summary (cut at 400 code units) to \<^verbatim>\<open>need\<close>.
\<close>

fun scan_targets ::
  "int \<Rightarrow> tl_cache \<Rightarrow> nat list \<Rightarrow> nat \<Rightarrow> item list
     \<Rightarrow> item list \<times> (nat \<times> jsstring) list \<times> jsstring list" where
  "scan_targets now c [] i heap = (heap, [], [])"
| "scan_targets now c (a # as) i heap =
     (case live_hit now c (cache_key (heap ! a)) of
        Some hit \<Rightarrow>
          scan_targets now c as (i + 1)
            (heap[a := (heap ! a)\<lparr>it_titleJa := Some (tl_titleJa hit),
                                   it_summaryJa := Some (tl_summaryJa hit)\<rparr>])
      | None \<Rightarrow>
          (case scan_targets now c as (i + 1) heap of
             (heap', index, need) \<Rightarrow>
               (heap', (i, cache_key (heap ! a)) # index,
                it_title (heap ! a) # take 400 (or_empty (it_summary (heap ! a))) # need)))"

text \<open>
  The provider's answer to one request: the call throws (network error, HTTP error
  status, malformed body), or it delivers \<^verbatim>\<open>translations.map(t => t.text)\<close>, whose
  elements are strings or \<^verbatim>\<open>undefined\<close> (\<open>None\<close>).
\<close>

datatype deepl_result = DeeplError | DeeplTexts "jsstring option list"

type_synonym provider = "jsstring list \<Rightarrow> deepl_result"

datatype error = FeedUnavailable | TranslationUnavailable | TypeError_push

text \<open>
  \<^verbatim>\<open>deeplTranslateToJA\<close>: \<^verbatim>\<open>null\<close> (\<open>Inr None\<close>) without a request when there is no
  key or no text; otherwise one request to the provider.
\<close>

definition deeplTranslateToJA ::
  "bool \<Rightarrow> provider \<Rightarrow> jsstring list \<Rightarrow> error + jsstring option list option" where
  "deeplTranslateToJA auth_key deepl texts =
     (if \<not> auth_key \<or> texts = [] then Inr None
      else case deepl texts of
             DeeplError \<Rightarrow> Inl TranslationUnavailable
           | DeeplTexts out \<Rightarrow> Inr (Some out))"

text \<open>\<^verbatim>\<open>out[j] || null\<close>: a missing, undefined or empty element is \<^verbatim>\<open>null\<close>.\<close>

definition out_at :: "jsstring option list \<Rightarrow> nat \<Rightarrow> jsstring option" where
  "out_at out j = (if j < length out then (if truthy (out ! j) then out ! j else None) else None)"

text \<open>
  The second loop, over \<^verbatim>\<open>index\<close> from position \<open>k\<close>: the pair of translations is
  assigned to the object \<^verbatim>\<open>limitedTargets[i]\<close> and stored in the cache under the key.
\<close>

fun write_back ::
  "int \<Rightarrow> nat list \<Rightarrow> jsstring option list \<Rightarrow> (nat \<times> jsstring) list \<Rightarrow> nat
     \<Rightarrow> item list \<times> tl_cache \<Rightarrow> item list \<times> tl_cache" where
  "write_back now lt out [] k hc = hc"
| "write_back now lt out ((i, key) # rest) k (heap, c) =
     write_back now lt out rest (k + 1)
       (heap[lt ! i := (heap ! (lt ! i))\<lparr>it_titleJa := Some (out_at out (k * 2)),
                                          it_summaryJa := Some (out_at out (k * 2 + 1))\<rparr>],
        c(key \<mapsto> \<lparr>tl_t = now, tl_titleJa = out_at out (k * 2),
                    tl_summaryJa = out_at out (k * 2 + 1)\<rparr>))"

text \<open>
  The translation stage. It returns the heap, the cache and the batches sent to the
  provider during the request (none or one). An exception of the provider call is
  caught and logged: the assignments of the first loop stay, nothing else is written.
\<close>

definition targets_of :: "item list \<Rightarrow> nat list" where
  "targets_of deduped = filter (\<lambda>a. looksEnglish (it_title (deduped ! a))) [0..<length deduped]"

definition limitedTargets :: "item list \<Rightarrow> nat list" where
  "limitedTargets deduped = take TRANSLATE_LIMIT (targets_of deduped)"

definition translate_stage ::
  "bool \<Rightarrow> provider \<Rightarrow> int \<Rightarrow> tl_cache \<Rightarrow> item list
     \<Rightarrow> item list \<times> tl_cache \<times> jsstring list list" where
  "translate_stage auth_key deepl now c deduped =
     (case scan_targets now c (limitedTargets deduped) 0 deduped of
        (heap, index, need) \<Rightarrow>
          if need \<noteq> [] \<and> auth_key then
            (case deeplTranslateToJA auth_key deepl need of
               Inl e \<Rightarrow> (heap, c, [need])
             | Inr None \<Rightarrow> (heap, c, [])
             | Inr (Some out) \<Rightarrow>
                 if out \<noteq> [] then
                   (case write_back now (limitedTargets deduped) out index 0 (heap, c) of
                      (heap', c') \<Rightarrow> (heap', c', [need]))
                 else (heap, c, [need]))
          else (heap, c, []))"

text \<open>
  Notions the statements about the stage use: an item without its translations; the
  bounded candidates that have no live cache entry, in order; and the two texts sent for
  such a candidate.
\<close>

definition untranslated :: "item \<Rightarrow> item" where
  "untranslated a = a\<lparr>it_titleJa := None, it_summaryJa := None\<rparr>"

definition cache_misses :: "int \<Rightarrow> tl_cache \<Rightarrow> item list \<Rightarrow> nat list" where
  "cache_misses now c deduped =
     filter (\<lambda>a. live_hit now c (cache_key (deduped ! a)) = None) (limitedTargets deduped)"

definition item_texts :: "item \<Rightarrow> jsstring list" where
  "item_texts t = [it_title t, take 400 (or_empty (it_summary t))]"

subsection \<open>Grouping by genre and the response\<close>

text \<open>A JSON value; an object is the list of its properties in insertion order.\<close>

datatype json = JNull | JNum jsnum | JStr jsstring | JArr "json list" | JObj "(jsstring \<times> json) list"

definition jnullable :: "jsstring option \<Rightarrow> json" where
  "jnullable a = (case a of None \<Rightarrow> JNull | Some s \<Rightarrow> JStr s)"

text \<open>
  The own properties of an item object, in the order of their creation: the seven of the
  object literal, then \<^verbatim>\<open>titleJa\<close> and \<^verbatim>\<open>summaryJa\<close> once they have been
  assigned.
\<close>

definition item_props :: "item \<Rightarrow> (jsstring \<times> json) list" where
  "item_props a =
     [(u16 ''id'', JStr (it_id a)),
      (u16 ''title'', JStr (it_title a)),
      (u16 ''url'', JStr (it_url a)),
      (u16 ''source'', JStr (it_source a)),
      (u16 ''publishedAt'', jnullable (it_publishedAt a)),
      (u16 ''summary'', jnullable (it_summary a)),
      (u16 ''_fallbackGenre'', JStr (it_fallbackGenre a))]
     @ (case it_titleJa a of None \<Rightarrow> [] | Some v \<Rightarrow> [(u16 ''titleJa'', jnullable v)])
     @ (case it_summaryJa a of None \<Rightarrow> [] | Some v \<Rightarrow> [(u16 ''summaryJa'', jnullable v)])"

text \<open>\<^verbatim>\<open>const { _fallbackGenre, ...clean } = it\<close>: every own property but that one.\<close>

definition clean :: "item \<Rightarrow> json" where
  "clean a = JObj (filter (\<lambda>kv. fst kv \<noteq> u16 ''_fallbackGenre'') (item_props a))"

text \<open>
  \<^verbatim>\<open>genres\<close> starts as \<^verbatim>\<open>{}\<close>, an object that inherits the properties of
  \<^verbatim>\<open>Object.prototype\<close>. For a name \<open>g\<close> among them \<^verbatim>\<open>genres[g]\<close> is a function or
  the prototype itself: truthy, so no array is created, and without a \<^verbatim>\<open>push\<close>, so
  the call throws a \<^verbatim>\<open>TypeError\<close>, which the handler's outer \<^verbatim>\<open>catch\<close> turns into
  the response 500.
\<close>

definition object_prototype_keys :: "jsstring list" where
  "object_prototype_keys =
     [u16 ''constructor'', u16 ''__defineGetter__'', u16 ''__defineSetter__'',
      u16 ''hasOwnProperty'', u16 ''__lookupGetter__'', u16 ''__lookupSetter__'',
      u16 ''isPrototypeOf'', u16 ''propertyIsEnumerable'', u16 ''toString'', u16 ''valueOf'',
      u16 ''__proto__'', u16 ''toLocaleString'']"

type_synonym genres = "(jsstring \<times> json list) list"

definition push_genre :: "jsstring \<Rightarrow> json \<Rightarrow> genres \<Rightarrow> genres" where
  "push_genre g x gs = map (\<lambda>kb. if fst kb = g then (fst kb, snd kb @ [x]) else kb) gs"

definition item_genre :: "item \<Rightarrow> jsstring" where
  "item_genre a = pickGenre (it_title a) (it_source a) (it_fallbackGenre a)"

text \<open>
  The loop \<^verbatim>\<open>for (const it of deduped)\<close>. The list of buckets is in the order in
  which the keys were created. (JSON output lists keys that are array indices, such as
  \<^verbatim>\<open>"90"\<close>, before the others; the order of keys is not modelled further.)
\<close>

fun genres_loop :: "item list \<Rightarrow> genres \<Rightarrow> error + genres" where
  "genres_loop [] gs = Inr gs"
| "genres_loop (a # as) gs =
     (if item_genre a \<in> fst ` set gs then genres_loop as (push_genre (item_genre a) (clean a) gs)
      else if item_genre a \<in> set object_prototype_keys then Inl TypeError_push
      else genres_loop as (gs @ [(item_genre a, [clean a])]))"

record response =
  res_status :: nat
  res_headers :: "(jsstring \<times> jsstring) list"
  res_body :: json

text \<open>The message of the exception (its wording is the engine's).\<close>

definition error_message :: "error \<Rightarrow> jsstring" where
  "error_message e =
     (case e of
        TypeError_push \<Rightarrow> u16 ''genres[g].push is not a function''
      | FeedUnavailable \<Rightarrow> u16 ''feed fetch failed''
      | TranslationUnavailable \<Rightarrow> u16 ''translate failed'')"

definition feed_json :: "feed \<Rightarrow> json" where
  "feed_json f =
     JObj [(u16 ''source'', JStr (f_source f)), (u16 ''url'', JStr (f_url f)),
           (u16 ''defaultGenre'', JStr (f_defaultGenre f))]"

definition genres_json :: "genres \<Rightarrow> json" where
  "genres_json gs = JObj (map (\<lambda>kb. (fst kb, JArr (snd kb))) gs)"

text \<open>The two responses of the handler.\<close>

definition response_200 :: "int \<Rightarrow> jsnum \<Rightarrow> feed list \<Rightarrow> nat \<Rightarrow> genres \<Rightarrow> response" where
  "response_200 now hours FEEDS n gs =
     \<lparr>res_status = 200,
      res_headers = [(u16 ''Cache-Control'', u16 ''s-maxage=300, stale-while-revalidate=600'')],
      res_body = JObj
        [(u16 ''generatedAt'', JStr (toISOString now)),
         (u16 ''hours'', JNum hours),
         (u16 ''feedCount'', JNum (Fin (of_nat (length FEEDS)))),
         (u16 ''totalItems'', JNum (Fin (of_nat n))),
         (u16 ''feedsLoaded'', JArr (map feed_json FEEDS)),
         (u16 ''genres'', genres_json gs)]\<rparr>"

definition response_500 :: "error \<Rightarrow> response" where
  "response_500 e =
     \<lparr>res_status = 500,
      res_headers = [],
      res_body = JObj
        [(u16 ''error'', JStr (u16 ''Internal Server Error'')),
         (u16 ''message'', JStr (error_message e))]\<rparr>"

text \<open>Reading a response: a property of an object, and the items of a 200 document.\<close>

definition jget :: "jsstring \<Rightarrow> json \<Rightarrow> json option" where
  "jget k j = (case j of JObj kvs \<Rightarrow> map_of kvs k | _ \<Rightarrow> None)"

definition jkeys :: "json \<Rightarrow> jsstring list" where
  "jkeys j = (case j of JObj kvs \<Rightarrow> map fst kvs | _ \<Rightarrow> [])"

definition jelems :: "json \<Rightarrow> json list" where
  "jelems j = (case j of JArr xs \<Rightarrow> xs | _ \<Rightarrow> [])"

definition body_genres :: "json \<Rightarrow> (jsstring \<times> json list) list" where
  "body_genres b =
     (case jget (u16 ''genres'') b of
        Some (JObj kvs) \<Rightarrow> map (\<lambda>kv. (fst kv, jelems (snd kv))) kvs
      | _ \<Rightarrow> [])"

definition body_items :: "json \<Rightarrow> json list" where
  "body_items b = concat (map snd (body_genres b))"

subsection \<open>The feed table\<close>

definition FEEDS_FALLBACK :: "feed list" where
  "FEEDS_FALLBACK =
   [\<lparr>f_source = u16 ''Pitchfork (News)'',
     f_url = u16 ''https://pitchfork.com/feed/feed-news/rss'',
     f_defaultGenre = u16 ''Pop''\<rparr>,
    \<lparr>f_source = u16 ''Pitchfork (Album Reviews)'',
     f_url = u16 ''https://pitchfork.com/feed/feed-album-reviews/rss'',
     f_defaultGenre = u16 ''Pop''\<rparr>,
    \<lparr>f_source = u16 ''Mixmag'',
     f_url = u16 ''https://mixmag.net/rss.xml'',
     f_defaultGenre = u16 ''Techno''\<rparr>,
    \<lparr>f_source = u16 ''The Quietus'',
     f_url = u16 ''https://thequietus.com/feed'',
     f_defaultGenre = u16 ''Experimental''\<rparr>,
    \<lparr>f_source = u16 ''Stereogum'',
     f_url = u16 ''https://www.stereogum.com/feed'',
     f_defaultGenre = u16 ''Rock''\<rparr>,
    \<lparr>f_source = u16 ''Consequence'',
     f_url = u16 ''http://consequenceofsound.net/feed'',
     f_defaultGenre = u16 ''Rock''\<rparr>,
    \<lparr>f_source = u16 ''EDM.com'',
     f_url = u16 ''https://edm.com/.rss/full/'',
     f_defaultGenre = u16 ''House''\<rparr>,
    \<lparr>f_source = [0x97F3, 0x697D, 0x30CA, 0x30BF, 0x30EA, 0x30FC],
     f_url = u16 ''http://natalie.mu/music/feed/news'',
     f_defaultGenre = u16 ''Japan''\<rparr>]"

text \<open>
  \<^verbatim>\<open>parseCsv\<close>, first part: the scan of the text, one code unit at a time, with the
  flag \<^verbatim>\<open>inQuotes\<close>, the current \<^verbatim>\<open>cell\<close> and \<^verbatim>\<open>row\<close>, and the finished
  \<^verbatim>\<open>rows\<close>. Code unit 34 is the double quote, 44 the comma, 10 and 13 line feed and
  carriage return.
\<close>

fun csv_scan ::
  "bool \<Rightarrow> jsstring \<Rightarrow> jsstring list \<Rightarrow> jsstring list list \<Rightarrow> jsstring \<Rightarrow> jsstring list list" where
  "csv_scan inQuotes cell row rows [] =
     (if cell \<noteq> [] \<or> row \<noteq> [] then rows @ [row @ [cell]] else rows)"
| "csv_scan True cell row rows [ch] =
     (if ch = 34 then csv_scan False cell row rows []
      else csv_scan True (cell @ [ch]) row rows [])"
| "csv_scan True cell row rows (ch # next # rest) =
     (if ch = 34 \<and> next = 34 then csv_scan True (cell @ [34]) row rows rest
      else if ch = 34 then csv_scan False cell row rows (next # rest)
      else csv_scan True (cell @ [ch]) row rows (next # rest))"
| "csv_scan False cell row rows (ch # rest) =
     (if ch = 34 then csv_scan True cell row rows rest
      else if ch = 44 then csv_scan False [] (row @ [cell]) rows rest
      else if ch = 10 then csv_scan False [] [] (rows @ [row @ [cell]]) rest
      else if ch = 13 then csv_scan False cell row rows rest
      else csv_scan False (cell @ [ch]) row rows rest)"

text \<open>
  Second part: the first row is the header; every later row that has a cell which is not
  blank becomes an object with one property per header cell, the trimmed cell of the
  same column or the empty string. An object is the map from its keys to its values.
\<close>

type_synonym csv_row = "jsstring \<rightharpoonup> jsstring"

definition row_object :: "jsstring list \<Rightarrow> jsstring list \<Rightarrow> csv_row" where
  "row_object header cols =
     fold (\<lambda>hc m. m(fst hc \<mapsto> trim (snd hc)))
       (zip header (cols @ replicate (length header - length cols) [])) Map.empty"

definition parseCsv :: "jsstring \<Rightarrow> csv_row list" where
  "parseCsv t =
     (case csv_scan False [] [] [] t of
        [] \<Rightarrow> []
      | h # rs \<Rightarrow>
          map (row_object (map trim h)) (filter (\<lambda>cols. \<exists>c \<in> set cols. trim c \<noteq> []) rs))"

text \<open>
  \<^verbatim>\<open>String.prototype.toUpperCase\<close>, one code unit at a time: the ASCII small letters
  and the two other code units whose upper case is one ASCII letter (the long s and the
  dotless i). Every other code unit is left as it is; the ones whose upper case is
  several letters (the sharp s, the ligatures) give none of the words compared with
  below.
\<close>

definition upper_unit :: "nat \<Rightarrow> nat" where
  "upper_unit c =
     (if 97 \<le> c \<and> c \<le> 122 then c - 32
      else if c = 0x017F then 83
      else if c = 0x0131 then 73
      else c)"

definition toUpperCase :: "jsstring \<Rightarrow> jsstring" where
  "toUpperCase s = map upper_unit s"

text \<open>\<^verbatim>\<open>String(r.k ?? d).trim()\<close> for a column \<open>k\<close> and a default \<open>d\<close>.\<close>

definition column :: "csv_row \<Rightarrow> jsstring \<Rightarrow> jsstring \<Rightarrow> jsstring" where
  "column r k d = trim (case r k of None \<Rightarrow> d | Some v \<Rightarrow> v)"

definition row_enabled :: "csv_row \<Rightarrow> bool" where
  "row_enabled r \<longleftrightarrow> toUpperCase (column r (u16 ''enabled'') []) \<noteq> u16 ''FALSE''"

definition row_feed :: "csv_row \<Rightarrow> feed" where
  "row_feed r =
     \<lparr>f_source = column r (u16 ''source'') [],
      f_url = column r (u16 ''url'') [],
      f_defaultGenre =
        (if column r (u16 ''defaultGenre'') (u16 ''Other'') = [] then u16 ''Other''
         else column r (u16 ''defaultGenre'') (u16 ''Other''))\<rparr>"

definition csv_feeds :: "csv_row list \<Rightarrow> feed list" where
  "csv_feeds rows =
     filter (\<lambda>f. f_source f \<noteq> [] \<and> f_url f \<noteq> []) (map row_feed (filter row_enabled rows))"

text \<open>
  \<^verbatim>\<open>loadFeeds\<close>. \<open>configured\<close> says whether \<^verbatim>\<open>FEEDS_CSV_URL\<close> is set; the outcome
  of the download is the text, or a failure (no connection, or a status that is not ok).
\<close>

record feeds_cache =
  fc_at :: int
  fc_feeds :: "feed list"

datatype csv_result = CsvError | CsvText jsstring

definition FEEDS_CACHE_MS :: int where
  "FEEDS_CACHE_MS = 10 * 60 * 1000"

definition loadFeeds :: "bool \<Rightarrow> csv_result \<Rightarrow> int \<Rightarrow> feeds_cache \<Rightarrow> feed list \<times> feeds_cache" where
  "loadFeeds configured download now fc =
     (if now - fc_at fc < FEEDS_CACHE_MS then (fc_feeds fc, fc)
      else if \<not> configured then (FEEDS_FALLBACK, \<lparr>fc_at = now, fc_feeds = FEEDS_FALLBACK\<rparr>)
      else case download of
             CsvError \<Rightarrow> (FEEDS_FALLBACK, \<lparr>fc_at = now, fc_feeds = FEEDS_FALLBACK\<rparr>)
           | CsvText csv \<Rightarrow>
               (if csv_feeds (parseCsv csv) \<noteq> []
                then (csv_feeds (parseCsv csv), \<lparr>fc_at = now, fc_feeds = csv_feeds (parseCsv csv)\<rparr>)
                else (FEEDS_FALLBACK, \<lparr>fc_at = now, fc_feeds = FEEDS_FALLBACK\<rparr>)))"

subsection \<open>The handler\<close>

text \<open>
  What a request meets outside the handler: the clock at the four places that read it,
  the download of the feed table, the outcomes of the feed fetches, the date parser of
  the engine, and the translation provider. \<open>e_settle FEEDS\<close> pairs every descriptor
  with the outcome of its fetch, in the order in which the fetches settle: the handler
  pushes the items of a feed when that feed's fetch has settled.
\<close>

record env =
  e_now_request :: int
  e_csv_configured :: bool
  e_csv :: csv_result
  e_now_load :: int
  e_settle :: "feed list \<Rightarrow> (feed \<times> fetch_result) list"
  e_dateParse :: date_parser
  e_now_translate :: int
  e_auth_key :: bool
  e_deepl :: provider
  e_now_response :: int

text \<open>The two caches that outlive a request.\<close>

record server_state =
  s_feedsCache :: feeds_cache
  s_tlCache :: tl_cache

definition initial_state :: server_state where
  "initial_state = \<lparr>s_feedsCache = \<lparr>fc_at = 0, fc_feeds = FEEDS_FALLBACK\<rparr>, s_tlCache = Map.empty\<rparr>"

text \<open>
  The items of a request after de-duplication, and after translation (with the new
  translation cache and the batches sent to the provider).
\<close>

definition request_feeds :: "env \<Rightarrow> server_state \<Rightarrow> feed list \<times> feeds_cache" where
  "request_feeds e st = loadFeeds (e_csv_configured e) (e_csv e) (e_now_load e) (s_feedsCache st)"

definition request_deduped :: "env \<Rightarrow> qvalue option \<Rightarrow> server_state \<Rightarrow> item list" where
  "request_deduped e q st =
     aggregate (e_dateParse e) (handler_since (e_now_request e) (handler_hours q))
       (e_settle e (fst (request_feeds e st)))"

definition request_translated ::
  "env \<Rightarrow> qvalue option \<Rightarrow> server_state \<Rightarrow> item list \<times> tl_cache \<times> jsstring list list" where
  "request_translated e q st =
     translate_stage (e_auth_key e) (e_deepl e) (e_now_translate e) (s_tlCache st)
       (request_deduped e q st)"

text \<open>
  The handler: the response, the state it leaves, and the batches it sent to the
  translation provider.
\<close>

definition handler ::
  "env \<Rightarrow> qvalue option \<Rightarrow> server_state \<Rightarrow> response \<times> server_state \<times> jsstring list list" where
  "handler e q st =
     (case request_translated e q st of
        (heap, tc, sent) \<Rightarrow>
          (case genres_loop heap [] of
             Inl err \<Rightarrow> response_500 err
           | Inr gs \<Rightarrow>
               response_200 (e_now_response e) (handler_hours q) (fst (request_feeds e st))
                 (length heap) gs,
           \<lparr>s_feedsCache = snd (request_feeds e st), s_tlCache = tc\<rparr>,
           sent))"

text \<open>
  A spelling of \<^verbatim>\<open>FALSE\<close> in capitals or small letters (the long s counts as an s):
  the strings whose upper case is \<^verbatim>\<open>FALSE\<close>.
\<close>

definition false_variant :: "jsstring \<Rightarrow> bool" where
  "false_variant s \<longleftrightarrow>
     list_all2 (\<lambda>c cs. c \<in> set cs) s [[70, 102], [65, 97], [76, 108], [83, 115, 0x017F], [69, 101]]"

text \<open>
  Sorted descending by \<^verbatim>\<open>publishedAt\<close>: no item is followed by one with a greater
  key.
\<close>

definition newest_first :: "item list \<Rightarrow> bool" where
  "newest_first xs = sorted_wrt (\<lambda>a b. published_key b \<le> published_key a) xs"

text \<open>
  An item after the first loop has met it: with the translations of its live cache
  entry, if it has one. And the invariant of the two properties: both exist or neither.
\<close>

definition hit_item :: "int \<Rightarrow> tl_cache \<Rightarrow> item \<Rightarrow> item" where
  "hit_item now c t =
     (case live_hit now c (cache_key t) of
        None \<Rightarrow> t
      | Some hit \<Rightarrow> t\<lparr>it_titleJa := Some (tl_titleJa hit), it_summaryJa := Some (tl_summaryJa hit)\<rparr>)"

definition ja_paired :: "item \<Rightarrow> bool" where
  "ja_paired a \<longleftrightarrow> (it_titleJa a = None \<longleftrightarrow> it_summaryJa a = None)"

text \<open>
  Reading an emitted item: its url, and its sort key \<^verbatim>\<open>publishedAt || ""\<close>. And the
  bucket of a genre in the list of buckets.
\<close>

definition json_url :: "json \<Rightarrow> jsstring option" where
  "json_url j = (case jget (u16 ''url'') j of Some (JStr s) \<Rightarrow> Some s | _ \<Rightarrow> None)"

definition json_published_key :: "json \<Rightarrow> jsstring" where
  "json_published_key j = (case jget (u16 ''publishedAt'') j of Some (JStr s) \<Rightarrow> s | _ \<Rightarrow> [])"

definition bucket :: "genres \<Rightarrow> jsstring \<Rightarrow> json list" where
  "bucket gs g = (case map_of gs g of None \<Rightarrow> [] | Some b \<Rightarrow> b)"

text \<open>The items of a request before they are sorted and de-duplicated.\<close>

definition request_allItems :: "env \<Rightarrow> qvalue option \<Rightarrow> server_state \<Rightarrow> item list" where
  "request_allItems e q st =
     concat (map (feed_items (e_dateParse e) (handler_since (e_now_request e) (handler_hours q)))
               (e_settle e (fst (request_feeds e st))))"

text \<open>
  What the specification asks of an item of a response, for a window that starts at the
  instant \<open>bound\<close> (in milliseconds): a title and a url that are not empty, and a
  \<^verbatim>\<open>publishedAt\<close> that is the ISO form of a parsed instant not before the bound.
\<close>

definition valid_item :: "date_parser \<Rightarrow> rat \<Rightarrow> item \<Rightarrow> bool" where
  "valid_item dateParse bound a \<longleftrightarrow>
     it_title a \<noteq> [] \<and> it_url a \<noteq> []
     \<and> (\<exists>raw ms. dateParse raw = Some ms \<and> it_publishedAt a = Some (toISOString ms)
                   \<and> bound \<le> of_int ms)"

subsection \<open>An example request\<close>

text \<open>
  The clock reads 2024-02-29T12:34:56.789Z. No remote table is configured, so the feeds
  are the eight of \<^verbatim>\<open>FEEDS_FALLBACK\<close>. Mixmag delivers two entries, one published an
  hour ago and one thirty hours ago; EDM.com delivers a copy of the first under the same
  link, published two hours ago; the six other fetches fail, and Mixmag's fetch settles
  first. The provider answers every text with the text behind \<^verbatim>\<open>JA:\<close>.
\<close>

definition ex_entry :: "string \<Rightarrow> string \<Rightarrow> string \<Rightarrow> string \<Rightarrow> raw_entry" where
  "ex_entry t l d s =
     \<lparr>r_isoDate = Some (u16 d), r_pubDate = None, r_published = None, r_updated = None,
      r_title = Some (u16 t), r_link = Some (u16 l), r_guid = None,
      r_contentSnippet = Some (u16 s), r_summary = None\<rparr>"

definition ex_fetch :: "feed \<Rightarrow> fetch_result" where
  "ex_fetch f =
     (if f_source f = u16 ''Mixmag'' then
        Fetched [ex_entry ''New Techno EP'' ''https://example.com/a'' ''2024-02-29T11:34:56.000Z''
                   '' Out  now '',
                 ex_entry ''Quiet jazz release'' ''https://example.com/b''
                   ''2024-02-28T06:34:56.000Z'' '''']
      else if f_source f = u16 ''EDM.com'' then
        Fetched [ex_entry ''New Techno EP (repost)'' ''https://example.com/a''
                   ''2024-02-29T10:34:56.000Z'' '''']
      else FetchFailed)"

definition ex_settle :: "feed list \<Rightarrow> (feed \<times> fetch_result) list" where
  "ex_settle fs =
     map (\<lambda>f. (f, ex_fetch f))
       (filter (\<lambda>f. f_source f = u16 ''Mixmag'') fs @ filter (\<lambda>f. f_source f \<noteq> u16 ''Mixmag'') fs)"

definition ex_dateParse :: date_parser where
  "ex_dateParse =
     map_of [(u16 ''2024-02-29T11:34:56.000Z'', 1709206496000),
             (u16 ''2024-02-29T10:34:56.000Z'', 1709202896000),
             (u16 ''2024-02-28T06:34:56.000Z'', 1709102096000)]"

definition ex_deepl :: provider where
  "ex_deepl texts = DeeplTexts (map (\<lambda>t. Some (u16 ''JA:'' @ t)) texts)"

definition ex_env :: env where
  "ex_env =
     \<lparr>e_now_request = 1709210096789,
      e_csv_configured = False,
      e_csv = CsvError,
      e_now_load = 1709210096789,
      e_settle = ex_settle,
      e_dateParse = ex_dateParse,
      e_now_translate = 1709210096789,
      e_auth_key = True,
      e_deepl = ex_deepl,
      e_now_response = 1709210096789\<rparr>"

definition ex_item :: "string \<Rightarrow> string \<Rightarrow> string \<Rightarrow> string \<Rightarrow> jsstring option \<Rightarrow> string \<Rightarrow> item" where
  "ex_item src t l d s g =
     \<lparr>it_id = u16 src @ u16 ''::'' @ u16 l, it_title = u16 t, it_url = u16 l, it_source = u16 src,
      it_publishedAt = Some (u16 d), it_summary = s, it_fallbackGenre = u16 g,
      it_titleJa = None, it_summaryJa = None\<rparr>"

section \<open>Properties\<close>

subsection \<open>Strings\<close>

lemma js_includes_sublist: "js_includes t kw \<longleftrightarrow> sublist kw t"
proof (induction t)
  case Nil
  then show ?case by auto
next
  case (Cons c cs)
  then show ?case by (auto simp: sublist_Cons_right)
qed

lemma toLowerCase_append: "toLowerCase (a @ b) = toLowerCase a @ toLowerCase b"
  by (simp add: toLowerCase_def)

lemma js_includes_append_left: "js_includes a kw \<Longrightarrow> js_includes (a @ b) kw"
  unfolding js_includes_sublist
  by (metis sublist_order.order_trans sublist_append_rightI)

subsection \<open>The classifier\<close>

lemma match_keywords_iff:
  "match_keywords t kws \<longleftrightarrow> (\<exists>kw \<in> set kws. sublist (toLowerCase kw) t)"
  by (induction kws) (auto simp: js_includes_sublist)

lemma scan_rules_find:
  "scan_rules t rules =
     map_option g_name (find (\<lambda>g. \<exists>kw \<in> set (g_keywords g). sublist (toLowerCase kw) t) rules)"
  by (induction rules) (auto simp: match_keywords_iff)

lemma GENRES_lower:
  "\<forall>g \<in> set GENRES. \<forall>kw \<in> set (g_keywords g). toLowerCase kw = kw"
  by (simp add: GENRES_def toLowerCase_def lower_unit_def u16_def)

lemma find_GENRES_lower:
  "find (\<lambda>g. \<exists>kw \<in> set (g_keywords g). sublist (toLowerCase kw) t) GENRES =
   find (\<lambda>g. \<exists>kw \<in> set (g_keywords g). sublist kw t) GENRES"
  by (rule find_cong) (use GENRES_lower in auto)

lemma Techno_title:
  "js_includes (toLowerCase (u16 ''Techno house crossover'')) (toLowerCase (u16 ''techno''))"
  by (simp add: toLowerCase_def lower_unit_def u16_def)

text \<open>
  C4. \<^verbatim>\<open>pickGenre\<close> is a function of title, source and fallback alone. On the
  lower-cased text \<^verbatim>\<open>title + " " + source\<close> it returns the name of the first rule of
  \<^verbatim>\<open>GENRES\<close>, in the declared order, one of whose keywords occurs in the text as a
  substring; when no keyword occurs it returns the fallback genre if that is not empty
  and \<^verbatim>\<open>Other\<close> otherwise. The title \<^verbatim>\<open>Techno house crossover\<close> is classified
  \<^verbatim>\<open>Techno\<close> whatever the source and the fallback are.
\<close>

theorem pickGenre_first_match:
  "pickGenre title source fallback =
     classify_spec GENRES (toLowerCase (title @ u16 '' '' @ source)) fallback
   \<and> pickGenre (u16 ''Techno house crossover'') source fallback = u16 ''Techno''"
proof
  show "pickGenre title source fallback =
     classify_spec GENRES (toLowerCase (title @ u16 '' '' @ source)) fallback"
    unfolding pickGenre_def classify_spec_def Let_def scan_rules_find find_GENRES_lower
    by (simp split: option.splits)
next
  have "js_includes (toLowerCase (u16 ''Techno house crossover'' @ u16 '' '' @ source))
          (toLowerCase (u16 ''techno''))"
    unfolding toLowerCase_append by (rule js_includes_append_left [OF Techno_title])
  then have "scan_rules (toLowerCase (u16 ''Techno house crossover'' @ u16 '' '' @ source)) GENRES
          = Some (u16 ''Techno'')"
    by (simp add: GENRES_def)
  then show "pickGenre (u16 ''Techno house crossover'') source fallback = u16 ''Techno''"
    by (simp add: pickGenre_def)
qed

theorem pickGenre_first_match_witness:
  "pickGenre (u16 ''Quiet jazz release'') (u16 ''Mixmag'') (u16 ''Techno'') = u16 ''Techno''
   \<and> classify_spec GENRES (toLowerCase (u16 ''Quiet jazz release'' @ u16 '' '' @ u16 ''Mixmag''))
         (u16 ''Techno'') = u16 ''Techno''
   \<and> pickGenre (u16 ''Techno house crossover'') (u16 ''EDM.com'') (u16 ''House'') = u16 ''Techno''"
  using pickGenre_first_match [of "u16 ''Quiet jazz release''" "u16 ''Mixmag''" "u16 ''Techno''"]
    pickGenre_first_match [of "u16 ''Techno house crossover''" "u16 ''EDM.com''" "u16 ''House''"]
  by (simp add: pickGenre_def GENRES_def toLowerCase_def lower_unit_def u16_def)

subsection \<open>The \<^verbatim>\<open>hours\<close> parameter\<close>

lemmas number_defs =
  Number_of_def StringToNumber_def trim_def u16_def is_space_def non_decimal_def
  signed_decimal_def unsigned_decimal_def is_digit_def exponent_part_def digits_value_def
  radix_literal_def radix_digit_def js_negate_def

lemma handler_hours_absent: "handler_hours None = Fin 24"
  by (simp add: handler_hours_def Math_max_def Math_min_def)

lemma handler_hours_Fin:
  "Number_of v = Fin x \<Longrightarrow> handler_hours (Some v) = Fin (max 1 (min 72 x))"
  by (auto simp: handler_hours_def Math_max_def Math_min_def max_def min_def)

lemma handler_hours_PosInf: "Number_of v = PosInf \<Longrightarrow> handler_hours (Some v) = Fin 72"
  by (simp add: handler_hours_def Math_max_def Math_min_def)

lemma handler_hours_NegInf: "Number_of v = NegInf \<Longrightarrow> handler_hours (Some v) = Fin 1"
  by (simp add: handler_hours_def Math_max_def Math_min_def)

lemma handler_hours_NaN: "Number_of v = NaN \<Longrightarrow> handler_hours (Some v) = NaN"
  by (simp add: handler_hours_def Math_max_def Math_min_def)

lemma handler_hours_cases:
  "handler_hours q = NaN \<or> (\<exists>r. handler_hours q = Fin r \<and> 1 \<le> r \<and> r \<le> 72)"
proof (cases q)
  case None
  then show ?thesis by (simp add: handler_hours_absent)
next
  case (Some v)
  then show ?thesis
    by (cases "Number_of v")
      (auto simp: handler_hours_NaN handler_hours_PosInf handler_hours_NegInf handler_hours_Fin)
qed

lemma Number_of_abc: "Number_of (QStr (u16 ''abc'')) = NaN"
  by (simp add: number_defs)

lemma since_NaN: "handler_since now NaN = NaN"
  by (simp add: handler_since_def)

lemma since_Fin: "handler_since now (Fin r) = Fin (of_int now - r * 3600000)"
  by (simp add: handler_since_def)

text \<open>
  C1, as the code has it. When the \<^verbatim>\<open>hours\<close> parameter is absent the value is 24.
  When it is present and converts to a number (finite or infinite), the value is that
  number clamped to the range from 1 to 72: a finite \<open>x\<close> gives \<open>max 1 (min 72 x)\<close>, and
  the value is an integer whenever \<open>x\<close> is one. A fraction inside the range is kept as it
  is: nothing in the handler rounds. The statement says nothing of a parameter that does
  not convert to a number.
\<close>

theorem handler_hours_clamped:
  "handler_hours None = Fin 24
   \<and> (Number_of v \<noteq> NaN \<longrightarrow>
        (\<exists>r. handler_hours (Some v) = Fin r \<and> 1 \<le> r \<and> r \<le> 72
             \<and> (\<forall>x. Number_of v = Fin x \<longrightarrow> r = max 1 (min 72 x))))
   \<and> (\<forall>n::int. Number_of v = Fin (of_int n) \<longrightarrow> integer_in_1_72 (handler_hours (Some v)))"
proof (intro conjI impI allI)
  show "handler_hours None = Fin 24" by (rule handler_hours_absent)
next
  assume "Number_of v \<noteq> NaN"
  then show "\<exists>r. handler_hours (Some v) = Fin r \<and> 1 \<le> r \<and> r \<le> 72
             \<and> (\<forall>x. Number_of v = Fin x \<longrightarrow> r = max 1 (min 72 x))"
    by (cases "Number_of v")
      (auto simp: handler_hours_PosInf handler_hours_NegInf handler_hours_Fin)
next
  fix n :: int
  assume n: "Number_of v = Fin (of_int n)"
  have "max 1 (min 72 (rat_of_int n)) = of_int (max 1 (min 72 n))"
    by (simp add: max_def min_def)
  then have "handler_hours (Some v) = Fin (of_int (max 1 (min 72 n)))"
    using handler_hours_Fin [OF n] by simp
  then show "integer_in_1_72 (handler_hours (Some v))"
    by (simp add: integer_in_1_72_def)
qed

theorem handler_hours_clamped_witness:
  "Number_of (QStr (u16 ''100'')) = Fin (of_int 100)
   \<and> handler_hours (Some (QStr (u16 ''100''))) = Fin 72
   \<and> integer_in_1_72 (handler_hours (Some (QStr (u16 ''100''))))
   \<and> handler_hours None = Fin 24"
proof -
  have n: "Number_of (QStr (u16 ''100'')) = Fin (of_int 100)"
    by (simp add: number_defs)
  then have nn: "Number_of (QStr (u16 ''100'')) \<noteq> NaN" by simp
  from handler_hours_clamped [of "QStr (u16 ''100'')"] n nn
  show ?thesis by auto
qed

text \<open>
  The claim as the specification words it fails at \<^verbatim>\<open>hours=2.5\<close>: the value used and
  echoed is \<open>5/2\<close>, which is not an integer.
\<close>

theorem handler_hours_integer_counterexample:
  "handler_hours (Some (QStr (u16 ''2.5''))) = Fin (5 / 2)
   \<and> \<not> integer_in_1_72 (handler_hours (Some (QStr (u16 ''2.5''))))"
proof -
  have "Number_of (QStr (u16 ''2.5'')) = Fin (5 / 2)"
    by (simp add: number_defs)
  from handler_hours_Fin [OF this]
  have h: "handler_hours (Some (QStr (u16 ''2.5''))) = Fin (5 / 2)"
    by simp
  have "\<not> integer_in_1_72 (Fin (5 / 2))" by code_simp
  with h show ?thesis by simp
qed

subsection \<open>The feed table\<close>

lemma upper_unit_F: "upper_unit c = 70 \<longleftrightarrow> c = 70 \<or> c = 102"
  and upper_unit_A: "upper_unit c = 65 \<longleftrightarrow> c = 65 \<or> c = 97"
  and upper_unit_L: "upper_unit c = 76 \<longleftrightarrow> c = 76 \<or> c = 108"
  and upper_unit_S: "upper_unit c = 83 \<longleftrightarrow> c = 83 \<or> c = 115 \<or> c = 0x017F"
  and upper_unit_E: "upper_unit c = 69 \<longleftrightarrow> c = 69 \<or> c = 101"
  unfolding upper_unit_def by (auto split: if_splits)

lemma toUpperCase_FALSE: "toUpperCase s = u16 ''FALSE'' \<longleftrightarrow> false_variant s"
proof -
  have "toUpperCase s = u16 ''FALSE'' \<longleftrightarrow>
        (\<exists>a b c d e. s = [a, b, c, d, e] \<and> upper_unit a = 70 \<and> upper_unit b = 65
           \<and> upper_unit c = 76 \<and> upper_unit d = 83 \<and> upper_unit e = 69)"
    by (auto simp: toUpperCase_def u16_def map_eq_Cons_conv)
  also have "\<dots> \<longleftrightarrow> false_variant s"
    unfolding false_variant_def upper_unit_F upper_unit_A upper_unit_L upper_unit_S upper_unit_E
    by (auto simp: list_all2_Cons2)
  finally show ?thesis .
qed

lemma row_enabled_iff:
  "row_enabled r \<longleftrightarrow>
     \<not> false_variant (trim (case r (u16 ''enabled'') of None \<Rightarrow> [] | Some v \<Rightarrow> v))"
  by (simp add: row_enabled_def column_def toUpperCase_FALSE)

lemmas csv_defs =
  parseCsv_def csv_feeds_def u16_def row_object_def trim_def is_space_def row_enabled_def
  column_def toUpperCase_def upper_unit_def row_feed_def

text \<open>
  C9, as the code has it. Of the rows of the remote table, the feeds kept are those of
  the rows whose \<^verbatim>\<open>enabled\<close> cell, trimmed, is not a spelling of \<^verbatim>\<open>FALSE\<close> in
  capitals or small letters (\<open>false_variant\<close>: the comparison is made after
  \<^verbatim>\<open>toUpperCase\<close>), in the order of the rows, less those whose source or url is empty.
  The literal \<^verbatim>\<open>FALSE\<close> excludes its row; a blank cell and a table without the column
  keep it.
\<close>

theorem csv_feeds_enabled:
  "csv_feeds rows =
     filter (\<lambda>f. f_source f \<noteq> [] \<and> f_url f \<noteq> [])
       (map row_feed
          (filter (\<lambda>r. \<not> false_variant
                          (trim (case r (u16 ''enabled'') of None \<Rightarrow> [] | Some v \<Rightarrow> v))) rows))
   \<and> (r (u16 ''enabled'') = Some (u16 ''FALSE'') \<longrightarrow> \<not> row_enabled r)
   \<and> (r (u16 ''enabled'') = None \<or> r (u16 ''enabled'') = Some [] \<longrightarrow> row_enabled r)"
proof (intro conjI impI)
  show "csv_feeds rows =
     filter (\<lambda>f. f_source f \<noteq> [] \<and> f_url f \<noteq> [])
       (map row_feed
          (filter (\<lambda>r. \<not> false_variant
                          (trim (case r (u16 ''enabled'') of None \<Rightarrow> [] | Some v \<Rightarrow> v))) rows))"
    unfolding csv_feeds_def row_enabled_iff ..
next
  assume "r (u16 ''enabled'') = Some (u16 ''FALSE'')"
  then show "\<not> row_enabled r"
    by (simp add: row_enabled_def column_def trim_def is_space_def toUpperCase_def
        upper_unit_def u16_def)
next
  assume "r (u16 ''enabled'') = None \<or> r (u16 ''enabled'') = Some []"
  then show "row_enabled r"
    by (auto simp: row_enabled_def column_def trim_def toUpperCase_def u16_def)
qed

theorem csv_feeds_enabled_witness:
  "(row_object [u16 ''enabled'', u16 ''source'', u16 ''url'']
      [u16 ''FALSE'', u16 ''Mixmag'', u16 ''https://mixmag.net/rss.xml'']) (u16 ''enabled'')
     = Some (u16 ''FALSE'')
   \<and> \<not> row_enabled (row_object [u16 ''enabled'', u16 ''source'', u16 ''url'']
      [u16 ''FALSE'', u16 ''Mixmag'', u16 ''https://mixmag.net/rss.xml''])
   \<and> (row_object [u16 ''source'', u16 ''url'']
      [u16 ''Mixmag'', u16 ''https://mixmag.net/rss.xml'']) (u16 ''enabled'') = None
   \<and> row_enabled (row_object [u16 ''source'', u16 ''url'']
      [u16 ''Mixmag'', u16 ''https://mixmag.net/rss.xml''])"
proof -
  have a: "(row_object [u16 ''enabled'', u16 ''source'', u16 ''url'']
      [u16 ''FALSE'', u16 ''Mixmag'', u16 ''https://mixmag.net/rss.xml'']) (u16 ''enabled'')
     = Some (u16 ''FALSE'')"
    by (simp add: csv_defs)
  have b: "(row_object [u16 ''source'', u16 ''url'']
      [u16 ''Mixmag'', u16 ''https://mixmag.net/rss.xml'']) (u16 ''enabled'') = None"
    by (simp add: csv_defs)
  from a b
    csv_feeds_enabled [of "[]" "row_object [u16 ''enabled'', u16 ''source'', u16 ''url'']
      [u16 ''FALSE'', u16 ''Mixmag'', u16 ''https://mixmag.net/rss.xml'']"]
    csv_feeds_enabled [of "[]" "row_object [u16 ''source'', u16 ''url'']
      [u16 ''Mixmag'', u16 ''https://mixmag.net/rss.xml'']"]
  show ?thesis by blast
qed

text \<open>
  The claim as the specification words it fails on the table whose only row has
  \<^verbatim>\<open>false\<close> in small letters in the \<^verbatim>\<open>enabled\<close> column: the cell is not the
  literal \<^verbatim>\<open>FALSE\<close>, and the row is excluded all the same.
\<close>

theorem csv_small_false_counterexample:
  "length (parseCsv (u16 ''enabled,source,url'' @ [10]
       @ u16 ''false,Mixmag,https://mixmag.net/rss.xml'')) = 1
   \<and> hd (parseCsv (u16 ''enabled,source,url'' @ [10]
       @ u16 ''false,Mixmag,https://mixmag.net/rss.xml'')) (u16 ''enabled'') = Some (u16 ''false'')
   \<and> u16 ''false'' \<noteq> u16 ''FALSE''
   \<and> csv_feeds (parseCsv (u16 ''enabled,source,url'' @ [10]
       @ u16 ''false,Mixmag,https://mixmag.net/rss.xml'')) = []"
  by (simp add: csv_defs)

subsection \<open>Sorting and de-duplication\<close>

lemma mset_insert_desc: "mset (insert_desc x ys) = add_mset x (mset ys)"
  by (induction ys) auto

lemma set_insert_desc: "set (insert_desc x ys) = insert x (set ys)"
  by (induction ys) auto

lemma newest_first_insert_desc: "newest_first ys \<Longrightarrow> newest_first (insert_desc x ys)"
  unfolding newest_first_def
  by (induction ys) (auto simp: set_insert_desc)

lemma mset_sort_newest_first: "mset (sort_newest_first xs) = mset xs"
  unfolding sort_newest_first_def by (induction xs) (auto simp: mset_insert_desc)

lemma set_sort_newest_first: "set (sort_newest_first xs) = set xs"
  by (metis mset_sort_newest_first set_mset_mset)

lemma newest_first_sort: "newest_first (sort_newest_first xs)"
  unfolding sort_newest_first_def
proof (induction xs)
  case Nil
  then show ?case by (simp add: newest_first_def)
next
  case (Cons a xs)
  then show ?case by (simp add: newest_first_insert_desc)
qed

lemma set_dedupe_subset: "set (dedupe seen xs) \<subseteq> set xs"
  by (induction xs arbitrary: seen) auto

lemma dedupe_urls: "it_url ` set (dedupe seen xs) = it_url ` set xs - seen"
  by (induction xs arbitrary: seen) auto

lemma distinct_dedupe: "distinct (map it_url (dedupe seen xs))"
  by (induction xs arbitrary: seen) (auto simp: dedupe_urls)

lemma find_dedupe:
  "find (\<lambda>a. it_url a = u) (dedupe seen xs) =
     (if u \<in> seen then None else find (\<lambda>a. it_url a = u) xs)"
proof (induction xs arbitrary: seen)
  case Nil
  then show ?case by simp
next
  case (Cons x xs)
  show ?case
  proof (cases "it_url x \<in> seen")
    case True
    then show ?thesis using Cons.IH [of seen] by auto
  next
    case False
    then show ?thesis using Cons.IH [of "insert (it_url x) seen"] by auto
  qed
qed

lemma sorted_wrt_dedupe: "sorted_wrt P xs \<Longrightarrow> sorted_wrt P (dedupe seen xs)"
proof (induction xs arbitrary: seen)
  case Nil
  then show ?case by simp
next
  case (Cons x xs)
  then show ?case using set_dedupe_subset [of "insert (it_url x) seen" xs] by auto
qed

lemma find_first_newest:
  assumes "newest_first s" and "a \<in> set s"
  shows "\<exists>k. find (\<lambda>b. it_url b = it_url a) s = Some k \<and> it_url k = it_url a
              \<and> published_key a \<le> published_key k"
  using assms
proof (induction s)
  case Nil
  then show ?case by simp
next
  case (Cons x s)
  show ?case
  proof (cases "it_url x = it_url a")
    case True
    then show ?thesis using Cons.prems by (auto simp: newest_first_def)
  next
    case False
    then have "a \<in> set s" using Cons.prems by auto
    moreover have "newest_first s" using Cons.prems by (simp add: newest_first_def)
    ultimately show ?thesis using Cons.IH False by auto
  qed
qed

subsection \<open>The translation stage\<close>

lemma update_ja_nth:
  "(heap[a := (heap ! a)\<lparr>it_titleJa := x, it_summaryJa := y\<rparr>]) ! b =
     (if b = a \<and> a < length heap then (heap ! a)\<lparr>it_titleJa := x, it_summaryJa := y\<rparr>
      else heap ! b)"
  by (cases "a < length heap") (auto simp: nth_list_update list_update_beyond)

lemma cache_key_ja [simp]: "cache_key (t\<lparr>it_titleJa := x, it_summaryJa := y\<rparr>) = cache_key t"
  by (simp add: cache_key_def)

lemma untranslated_ja [simp]: "untranslated (t\<lparr>it_titleJa := x, it_summaryJa := y\<rparr>) = untranslated t"
  by (simp add: untranslated_def)

lemma cache_key_update:
  "cache_key ((heap[a := (heap ! a)\<lparr>it_titleJa := x, it_summaryJa := y\<rparr>]) ! b) = cache_key (heap ! b)"
  by (simp add: update_ja_nth)

lemma map_untranslated_update:
  "map untranslated (heap[a := (heap ! a)\<lparr>it_titleJa := x, it_summaryJa := y\<rparr>]) = map untranslated heap"
  by (rule nth_equalityI) (auto simp: update_ja_nth)

lemma scan_targets_untranslated:
  "scan_targets now c as i heap = (h, ix, nd) \<Longrightarrow> map untranslated h = map untranslated heap"
proof (induction as arbitrary: i heap h ix nd)
  case Nil
  then show ?case by simp
next
  case (Cons a as)
  show ?case
  proof (cases "live_hit now c (cache_key (heap ! a))")
    case None
    then obtain ix' nd' where "scan_targets now c as (i + 1) heap = (h, ix', nd')"
      using Cons.prems by (auto split: prod.splits)
    then show ?thesis using Cons.IH by blast
  next
    case (Some hit)
    then have "scan_targets now c as (i + 1)
        (heap[a := (heap ! a)\<lparr>it_titleJa := Some (tl_titleJa hit), it_summaryJa := Some (tl_summaryJa hit)\<rparr>])
        = (h, ix, nd)"
      using Cons.prems by simp
    from Cons.IH [OF this] show ?thesis by (simp add: map_untranslated_update)
  qed
qed

lemma scan_targets_char:
  assumes "scan_targets now c as i heap = (h, ix, nd)" and "distinct as" and "\<forall>a \<in> set as. a < length heap"
    and "length pre = i"
  shows "length h = length heap
    \<and> (\<forall>b. h ! b = (if b \<in> set as then hit_item now c (heap ! b) else heap ! b))
    \<and> map (\<lambda>pk. ((pre @ as) ! fst pk, snd pk)) ix
        = map (\<lambda>a. (a, cache_key (heap ! a))) (filter (\<lambda>a. live_hit now c (cache_key (heap ! a)) = None) as)
    \<and> nd = concat (map (\<lambda>a. item_texts (heap ! a)) (filter (\<lambda>a. live_hit now c (cache_key (heap ! a)) = None) as))"
  using assms
proof (induction as arbitrary: i heap h ix nd pre)
  case Nil
  then show ?case by simp
next
  case (Cons a as)
  have pre: "length (pre @ [a]) = i + 1" using Cons.prems by simp
  have nth_pre: "(pre @ a # as) ! i = a" using Cons.prems by (simp add: nth_append)
  show ?case
  proof (cases "live_hit now c (cache_key (heap ! a))")
    case None
    then obtain ix' nd' where rec: "scan_targets now c as (i + 1) heap = (h, ix', nd')"
      and ix: "ix = (i, cache_key (heap ! a)) # ix'"
      and nd: "nd = it_title (heap ! a) # take 400 (or_empty (it_summary (heap ! a))) # nd'"
      using Cons.prems(1) by (auto split: prod.splits)
    have "distinct as" "\<forall>a \<in> set as. a < length heap" using Cons.prems by auto
    from Cons.IH [OF rec this pre]
    show ?thesis using None ix nd nth_pre Cons.prems(2)
      by (auto simp: hit_item_def item_texts_def)
  next
    case (Some hit)
    define heap' where
      "heap' = heap[a := (heap ! a)\<lparr>it_titleJa := Some (tl_titleJa hit), it_summaryJa := Some (tl_summaryJa hit)\<rparr>]"
    let ?miss = "\<lambda>hp a. live_hit now c (cache_key (hp ! a)) = None"
    have rec: "scan_targets now c as (i + 1) heap' = (h, ix, nd)"
      using Cons.prems(1) Some by (simp add: heap'_def)
    have a: "a \<notin> set as" "a < length heap" using Cons.prems by auto
    have len: "length heap' = length heap" by (simp add: heap'_def)
    have d: "distinct as" "\<forall>a \<in> set as. a < length heap'" using Cons.prems len by auto
    have ck: "\<And>b. cache_key (heap' ! b) = cache_key (heap ! b)"
      unfolding heap'_def by (rule cache_key_update)
    have ata: "heap' ! a = hit_item now c (heap ! a)"
      using a Some by (simp add: heap'_def hit_item_def)
    have oth: "\<And>b. b \<noteq> a \<Longrightarrow> heap' ! b = heap ! b" by (simp add: heap'_def)
    have miss_eq: "?miss heap' = ?miss heap" by (simp add: ck)
    have texts: "map (\<lambda>b. item_texts (heap' ! b)) (filter (?miss heap) as)
           = map (\<lambda>b. item_texts (heap ! b)) (filter (?miss heap) as)"
    proof (rule map_cong)
      fix b assume "b \<in> set (filter (?miss heap) as)"
      then have "b \<noteq> a" using a by auto
      then show "item_texts (heap' ! b) = item_texts (heap ! b)" by (simp add: oth)
    qed simp
    have keys: "(\<lambda>a. (a, cache_key (heap' ! a))) = (\<lambda>a. (a, cache_key (heap ! a)))"
      by (simp add: ck)
    have app: "pre @ a # as = (pre @ [a]) @ as" by simp
    note IH = Cons.IH [OF rec d pre, unfolded miss_eq texts keys]
    have 1: "length h = length heap" using IH len by simp
    have 2: "\<forall>b. h ! b = (if b \<in> set (a # as) then hit_item now c (heap ! b) else heap ! b)"
    proof
      fix b
      show "h ! b = (if b \<in> set (a # as) then hit_item now c (heap ! b) else heap ! b)"
      proof (cases "b = a")
        case True
        then show ?thesis using IH a ata by simp
      next
        case False
        then show ?thesis using IH oth by simp
      qed
    qed
    have f: "filter (?miss heap) (a # as) = filter (?miss heap) as" using Some by simp
    have 3: "map (\<lambda>pk. ((pre @ a # as) ! fst pk, snd pk)) ix
        = map (\<lambda>a. (a, cache_key (heap ! a))) (filter (?miss heap) (a # as))"
      unfolding f app using IH by simp
    have 4: "nd = concat (map (\<lambda>a. item_texts (heap ! a)) (filter (?miss heap) (a # as)))"
      unfolding f using IH by simp
    from 1 2 3 4 show ?thesis by blast
  qed
qed

lemma ja_paired_update:
  "\<forall>x \<in> set heap. ja_paired x \<Longrightarrow>
   \<forall>x \<in> set (heap[a := (heap ! a)\<lparr>it_titleJa := Some x1, it_summaryJa := Some y1\<rparr>]). ja_paired x"
proof
  fix x
  assume h: "\<forall>x \<in> set heap. ja_paired x"
    and x: "x \<in> set (heap[a := (heap ! a)\<lparr>it_titleJa := Some x1, it_summaryJa := Some y1\<rparr>])"
  from x have "x = (heap ! a)\<lparr>it_titleJa := Some x1, it_summaryJa := Some y1\<rparr> \<or> x \<in> set heap"
    using set_update_subset_insert by fastforce
  then show "ja_paired x" using h by (auto simp: ja_paired_def)
qed

lemma scan_targets_paired:
  "scan_targets now c as i heap = (h, ix, nd) \<Longrightarrow> \<forall>x \<in> set heap. ja_paired x
   \<Longrightarrow> \<forall>x \<in> set h. ja_paired x"
proof (induction as arbitrary: i heap h ix nd)
  case Nil
  then show ?case by simp
next
  case (Cons a as)
  show ?case
  proof (cases "live_hit now c (cache_key (heap ! a))")
    case None
    then obtain ix' nd' where "scan_targets now c as (i + 1) heap = (h, ix', nd')"
      using Cons.prems by (auto split: prod.splits)
    then show ?thesis using Cons.IH Cons.prems(2) by blast
  next
    case (Some hit)
    then have "scan_targets now c as (i + 1)
        (heap[a := (heap ! a)\<lparr>it_titleJa := Some (tl_titleJa hit), it_summaryJa := Some (tl_summaryJa hit)\<rparr>])
        = (h, ix, nd)"
      using Cons.prems by simp
    from Cons.IH [OF this ja_paired_update [OF Cons.prems(2)]] show ?thesis .
  qed
qed

lemma write_back_char:
  "write_back now lt out ix k (heap, c) = (h, c') \<Longrightarrow>
     length h = length heap
     \<and> map untranslated h = map untranslated heap
     \<and> (\<forall>b. b \<notin> (\<lambda>pk. lt ! fst pk) ` set ix \<longrightarrow> h ! b = heap ! b)
     \<and> (\<forall>key. key \<notin> snd ` set ix \<longrightarrow> c' key = c key)
     \<and> (\<forall>key \<in> snd ` set ix. \<exists>e. c' key = Some e \<and> tl_t e = now)
     \<and> ((\<forall>x \<in> set heap. ja_paired x) \<longrightarrow> (\<forall>x \<in> set h. ja_paired x))"
proof (induction ix arbitrary: k heap c)
  case Nil
  then show ?case by simp
next
  case (Cons pk ix)
  obtain i key where pk: "pk = (i, key)" by (cases pk)
  define heap1 where "heap1 = heap[lt ! i := (heap ! (lt ! i))\<lparr>it_titleJa := Some (out_at out (k * 2)),
                                          it_summaryJa := Some (out_at out (k * 2 + 1))\<rparr>]"
  define c1 where "c1 = c(key \<mapsto> \<lparr>tl_t = now, tl_titleJa = out_at out (k * 2),
                    tl_summaryJa = out_at out (k * 2 + 1)\<rparr>)"
  have rec: "write_back now lt out ix (k + 1) (heap1, c1) = (h, c')"
    using Cons.prems by (simp add: pk heap1_def c1_def)
  note IH = Cons.IH [OF rec]
  have l1: "length heap1 = length heap" by (simp add: heap1_def)
  have u1: "map untranslated heap1 = map untranslated heap"
    unfolding heap1_def by (rule map_untranslated_update)
  have o1: "\<And>b. b \<noteq> lt ! i \<Longrightarrow> heap1 ! b = heap ! b" by (simp add: heap1_def)
  have p1: "(\<forall>x \<in> set heap. ja_paired x) \<Longrightarrow> (\<forall>x \<in> set heap1. ja_paired x)"
    unfolding heap1_def by (rule ja_paired_update)
  have k1: "\<And>key'. key' \<noteq> key \<Longrightarrow> c1 key' = c key'" by (simp add: c1_def)
  have k2: "\<exists>e. c1 key = Some e \<and> tl_t e = now" by (simp add: c1_def)
  have 5: "\<forall>key' \<in> snd ` set (pk # ix). \<exists>e. c' key' = Some e \<and> tl_t e = now"
  proof
    fix key' assume "key' \<in> snd ` set (pk # ix)"
    then consider "key' \<in> snd ` set ix" | "key' \<notin> snd ` set ix" "key' = key"
      using pk by auto
    then show "\<exists>e. c' key' = Some e \<and> tl_t e = now"
    proof cases
      case 1
      then show ?thesis using IH by blast
    next
      case 2
      then have "c' key' = c1 key" using IH by simp
      then show ?thesis using k2 by simp
    qed
  qed
  have 3: "\<forall>b. b \<notin> (\<lambda>pk. lt ! fst pk) ` set (pk # ix) \<longrightarrow> h ! b = heap ! b"
    using IH o1 pk by auto
  have 4: "\<forall>key'. key' \<notin> snd ` set (pk # ix) \<longrightarrow> c' key' = c key'"
    using IH k1 pk by auto
  from IH l1 u1 p1 3 4 5 show ?case by auto
qed

lemma limitedTargets_props:
  "distinct (limitedTargets d) \<and> (\<forall>a \<in> set (limitedTargets d). a < length d)
   \<and> length (limitedTargets d) \<le> TRANSLATE_LIMIT"
proof -
  have "distinct (targets_of d)" "\<forall>a \<in> set (targets_of d). a < length d"
    by (auto simp: targets_of_def)
  then show ?thesis
    unfolding limitedTargets_def by (auto dest: in_set_takeD)
qed

lemma concat_item_texts_Nil: "concat (map (\<lambda>a. item_texts (f a)) xs) = [] \<longleftrightarrow> xs = []"
  by (cases xs) (auto simp: item_texts_def)

lemma translate_stage_char:
  assumes "translate_stage k d now c deduped = (h, c', sent)"
  defines "need \<equiv> concat (map (\<lambda>a. item_texts (deduped ! a)) (cache_misses now c deduped))"
  defines "written \<equiv> k \<and> cache_misses now c deduped \<noteq> [] \<and> (\<exists>out. d need = DeeplTexts out \<and> out \<noteq> [])"
  shows "length h = length deduped
    \<and> map untranslated h = map untranslated deduped
    \<and> (\<forall>b. b \<notin> set (limitedTargets deduped) \<longrightarrow> h ! b = deduped ! b)
    \<and> (\<forall>b. b \<in> set (limitedTargets deduped) \<longrightarrow> b \<notin> set (cache_misses now c deduped)
           \<longrightarrow> h ! b = hit_item now c (deduped ! b))
    \<and> sent = (if cache_misses now c deduped \<noteq> [] \<and> k then [need] else [])
    \<and> ((\<forall>x \<in> set deduped. ja_paired x) \<longrightarrow> (\<forall>x \<in> set h. ja_paired x))
    \<and> (\<not> written \<longrightarrow> c' = c \<and> (\<forall>b. h ! b = (if b \<in> set (limitedTargets deduped)
                                          then hit_item now c (deduped ! b) else deduped ! b)))
    \<and> (written \<longrightarrow> (\<forall>key. key \<notin> (\<lambda>a. cache_key (deduped ! a)) ` set (cache_misses now c deduped)
           \<longrightarrow> c' key = c key))
    \<and> (written \<longrightarrow> (\<forall>key \<in> (\<lambda>a. cache_key (deduped ! a)) ` set (cache_misses now c deduped).
           \<exists>e. c' key = Some e \<and> tl_t e = now))"
proof -
  let ?lt = "limitedTargets deduped"
  let ?ms = "cache_misses now c deduped"
  obtain h0 ix nd where sc: "scan_targets now c ?lt 0 deduped = (h0, ix, nd)"
    by (cases "scan_targets now c ?lt 0 deduped") auto
  have lt: "distinct ?lt" "\<forall>a \<in> set ?lt. a < length deduped"
    using limitedTargets_props by auto
  have "length ([]::nat list) = 0" by simp
  note ch = scan_targets_char [OF sc lt this, simplified, folded cache_misses_def]
  have len0: "length h0 = length deduped" using ch by simp
  have h0: "\<And>b. h0 ! b = (if b \<in> set ?lt then hit_item now c (deduped ! b) else deduped ! b)"
    using ch by simp
  have ixm: "map (\<lambda>pk. (?lt ! fst pk, snd pk)) ix = map (\<lambda>a. (a, cache_key (deduped ! a))) ?ms"
    using ch by simp
  have nd: "nd = need" using ch by (simp add: need_def)
  have un0: "map untranslated h0 = map untranslated deduped"
    using scan_targets_untranslated [OF sc] .
  have pa0: "(\<forall>x \<in> set deduped. ja_paired x) \<Longrightarrow> (\<forall>x \<in> set h0. ja_paired x)"
    using scan_targets_paired [OF sc] by blast
  have "map fst (map (\<lambda>pk. (?lt ! fst pk, snd pk)) ix) = map fst (map (\<lambda>a. (a, cache_key (deduped ! a))) ?ms)"
    using ixm by simp
  then have addr: "map (\<lambda>pk. ?lt ! fst pk) ix = ?ms" by (simp add: comp_def)
  have "map snd (map (\<lambda>pk. (?lt ! fst pk, snd pk)) ix) = map snd (map (\<lambda>a. (a, cache_key (deduped ! a))) ?ms)"
    using ixm by simp
  then have keys: "map snd ix = map (\<lambda>a. cache_key (deduped ! a)) ?ms" by (simp add: comp_def)
  have aset: "(\<lambda>pk. ?lt ! fst pk) ` set ix = set ?ms"
    using addr by (metis set_map)
  have kset: "snd ` set ix = (\<lambda>a. cache_key (deduped ! a)) ` set ?ms"
    using keys by (metis set_map)
  have "need = [] \<longleftrightarrow> ?ms = []"
    unfolding need_def by (rule concat_item_texts_Nil)
  then have ndnil: "nd \<noteq> [] \<longleftrightarrow> ?ms \<noteq> []"
    using nd by simp
  have ms_sub: "set ?ms \<subseteq> set ?lt" by (auto simp: cache_misses_def)
  have hit_miss: "\<And>b. b \<in> set ?ms \<Longrightarrow> hit_item now c (deduped ! b) = deduped ! b"
    by (auto simp: cache_misses_def hit_item_def)
  show ?thesis
  proof (cases written)
    case False
    then have "h = h0 \<and> c' = c \<and> sent = (if ?ms \<noteq> [] \<and> k then [need] else [])"
      using assms(1) sc ndnil nd
      by (auto simp: translate_stage_def written_def deeplTranslateToJA_def
          split: if_splits deepl_result.splits)
    then show ?thesis
      using False len0 un0 h0 pa0 by simp
  next
    case True
    then obtain out where out: "d need = DeeplTexts out" "out \<noteq> []" and k: k and ms: "?ms \<noteq> []"
      by (auto simp: written_def)
    obtain h1 c1 where wb: "write_back now ?lt out ix 0 (h0, c) = (h1, c1)"
      by (cases "write_back now ?lt out ix 0 (h0, c)") auto
    have res: "h = h1 \<and> c' = c1 \<and> sent = [need]"
      using assms(1) sc ndnil nd out k ms wb
      by (auto simp: translate_stage_def deeplTranslateToJA_def)
    note wc = write_back_char [OF wb, unfolded aset kset]
    have hb: "\<And>b. b \<notin> set ?ms \<Longrightarrow> h ! b = h0 ! b" using wc res by simp
    have "\<forall>b. b \<notin> set ?lt \<longrightarrow> h ! b = deduped ! b"
    proof (intro allI impI)
      fix b assume b: "b \<notin> set ?lt"
      then have "b \<notin> set ?ms" using ms_sub by auto
      then show "h ! b = deduped ! b" using hb [of b] h0 [of b] b by simp
    qed
    moreover have "\<forall>b. b \<in> set ?lt \<longrightarrow> b \<notin> set ?ms \<longrightarrow> h ! b = hit_item now c (deduped ! b)"
    proof (intro allI impI)
      fix b assume b: "b \<in> set ?lt" "b \<notin> set ?ms"
      then show "h ! b = hit_item now c (deduped ! b)" using hb [of b] h0 [of b] by simp
    qed
    ultimately show ?thesis
      using True res wc len0 un0 pa0 k ms by auto
  qed
qed

subsection \<open>Grouping by genre\<close>

lemma map_fst_push_genre [simp]: "map fst (push_genre g x gs) = map fst gs"
  by (induction gs) (auto simp: push_genre_def)

lemma map_of_absent: "g \<notin> fst ` set gs \<Longrightarrow> map_of gs g = None"
  by (simp add: map_of_eq_None_iff)

lemma map_of_present: "g \<in> fst ` set gs \<Longrightarrow> \<exists>b. map_of gs g = Some b"
  by (cases "map_of gs g") (auto simp: map_of_eq_None_iff)

lemma bucket_absent: "g \<notin> fst ` set gs \<Longrightarrow> bucket gs g = []"
  by (simp add: bucket_def map_of_absent)

lemma map_of_push_genre:
  "map_of (push_genre g x gs) g' =
     (if g' = g then map_option (\<lambda>b. b @ [x]) (map_of gs g) else map_of gs g')"
  by (induction gs) (auto simp: push_genre_def)

lemma bucket_push_genre:
  "bucket (push_genre g x gs) g' =
     (if g' = g \<and> g \<in> fst ` set gs then bucket gs g @ [x] else bucket gs g')"
proof (cases "g' = g")
  case False
  then show ?thesis by (simp add: bucket_def map_of_push_genre)
next
  case eq: True
  show ?thesis
  proof (cases "map_of gs g")
    case None
    then have "g \<notin> fst ` set gs" by (simp add: map_of_eq_None_iff)
    then show ?thesis using None eq by (simp add: bucket_def map_of_push_genre)
  next
    case (Some b)
    then have "g \<in> fst ` set gs" by (metis map_of_eq_None_iff option.distinct(1))
    then show ?thesis using Some eq by (simp add: bucket_def map_of_push_genre)
  qed
qed

lemma bucket_append_new:
  "g \<notin> fst ` set gs \<Longrightarrow>
   bucket (gs @ [(g, [x])]) g' = (if g' = g then [x] else bucket gs g')"
  by (simp add: bucket_def map_add_def map_of_absent split: option.splits)

lemma nonempty_push_genre:
  "\<forall>kb \<in> set gs. snd kb \<noteq> [] \<Longrightarrow> \<forall>kb \<in> set (push_genre g x gs). snd kb \<noteq> []"
  by (auto simp: push_genre_def)

lemma mset_push_genre:
  "distinct (map fst gs) \<Longrightarrow> g \<in> fst ` set gs \<Longrightarrow>
   mset (concat (map snd (push_genre g x gs))) = add_mset x (mset (concat (map snd gs)))"
proof (induction gs)
  case Nil
  then show ?case by simp
next
  case (Cons kb gs)
  show ?case
  proof (cases "fst kb = g")
    case True
    then have "g \<notin> fst ` set gs" using Cons.prems by auto
    then have "push_genre g x gs = gs"
      unfolding push_genre_def by (intro map_idI) auto
    then show ?thesis using True by (simp add: push_genre_def)
  next
    case False
    then have "g \<in> fst ` set gs" using Cons.prems by auto
    then show ?thesis using Cons False by (simp add: push_genre_def)
  qed
qed

lemma genres_loop_char:
  assumes "genres_loop as gs = Inr gs'" and "distinct (map fst gs)" and "\<forall>kb \<in> set gs. snd kb \<noteq> []"
  shows "distinct (map fst gs') \<and> (\<forall>kb \<in> set gs'. snd kb \<noteq> [])
     \<and> (\<forall>g. bucket gs' g = bucket gs g @ map clean (filter (\<lambda>a. item_genre a = g) as))
     \<and> fst ` set gs' = fst ` set gs \<union> item_genre ` set as
     \<and> mset (concat (map snd gs')) = mset (concat (map snd gs)) + mset (map clean as)"
  using assms
proof (induction as arbitrary: gs)
  case Nil
  then show ?case by simp
next
  case (Cons a as)
  let ?g = "item_genre a"
  show ?case
  proof (cases "?g \<in> fst ` set gs")
    case True
    then have rec: "genres_loop as (push_genre ?g (clean a) gs) = Inr gs'"
      using Cons.prems(1) by simp
    have d: "distinct (map fst (push_genre ?g (clean a) gs))" using Cons.prems(2) by simp
    have n: "\<forall>kb \<in> set (push_genre ?g (clean a) gs). snd kb \<noteq> []"
      using nonempty_push_genre [OF Cons.prems(3)] .
    have keys: "fst ` set (push_genre ?g (clean a) gs) = fst ` set gs"
      by (metis map_fst_push_genre set_map)
    note IH = Cons.IH [OF rec d n]
    have b: "\<forall>g. bucket gs' g = bucket gs g @ map clean (filter (\<lambda>a. item_genre a = g) (a # as))"
      using IH True by (simp add: bucket_push_genre)
    have k: "fst ` set gs' = fst ` set gs \<union> item_genre ` set (a # as)"
      using IH True keys by auto
    have m: "mset (concat (map snd gs')) = mset (concat (map snd gs)) + mset (map clean (a # as))"
      using IH mset_push_genre [OF Cons.prems(2) True, of "clean a"] by simp
    from IH b k m show ?thesis by blast
  next
    case False
    then have np: "?g \<notin> set object_prototype_keys"
      and rec: "genres_loop as (gs @ [(?g, [clean a])]) = Inr gs'"
      using Cons.prems(1) by (auto split: if_splits)
    have d: "distinct (map fst (gs @ [(?g, [clean a])]))" using Cons.prems(2) False by auto
    have n: "\<forall>kb \<in> set (gs @ [(?g, [clean a])]). snd kb \<noteq> []" using Cons.prems(3) by auto
    note IH = Cons.IH [OF rec d n]
    have b: "\<forall>g. bucket gs' g = bucket gs g @ map clean (filter (\<lambda>a. item_genre a = g) (a # as))"
      using IH False by (simp add: bucket_append_new bucket_absent)
    have k: "fst ` set gs' = fst ` set gs \<union> item_genre ` set (a # as)"
      using IH by auto
    have m: "mset (concat (map snd gs')) = mset (concat (map snd gs)) + mset (map clean (a # as))"
      using IH by simp
    from IH b k m show ?thesis by blast
  qed
qed

lemma genres_loop_ok:
  "\<forall>a \<in> set as. item_genre a \<notin> set object_prototype_keys \<Longrightarrow> \<exists>gs'. genres_loop as gs = Inr gs'"
  by (induction as arbitrary: gs) auto

lemma genres_loop_error: "genres_loop as gs = Inl e \<Longrightarrow>
   e = TypeError_push \<and> (\<exists>a \<in> set as. item_genre a \<in> set object_prototype_keys)"
  by (induction as arbitrary: gs) (auto split: if_splits)

subsection \<open>The response\<close>

lemma json_url_clean: "json_url (clean a) = Some (it_url a)"
  by (simp add: json_url_def clean_def item_props_def jget_def u16_def)

lemma json_published_key_clean: "json_published_key (clean a) = published_key a"
  by (cases "it_publishedAt a")
    (simp_all add: json_published_key_def clean_def item_props_def jget_def u16_def
      published_key_def or_empty_def jnullable_def)

lemma jkeys_clean:
  "jkeys (clean a) =
     [u16 ''id'', u16 ''title'', u16 ''url'', u16 ''source'', u16 ''publishedAt'', u16 ''summary'']
     @ (case it_titleJa a of None \<Rightarrow> [] | Some v \<Rightarrow> [u16 ''titleJa''])
     @ (case it_summaryJa a of None \<Rightarrow> [] | Some v \<Rightarrow> [u16 ''summaryJa''])"
  by (cases "it_titleJa a"; cases "it_summaryJa a")
    (simp_all add: jkeys_def clean_def item_props_def u16_def)

lemma jkeys_clean_paired:
  "ja_paired a \<Longrightarrow>
   jkeys (clean a) =
     [u16 ''id'', u16 ''title'', u16 ''url'', u16 ''source'', u16 ''publishedAt'', u16 ''summary'']
   \<or> jkeys (clean a) =
     [u16 ''id'', u16 ''title'', u16 ''url'', u16 ''source'', u16 ''publishedAt'', u16 ''summary'',
      u16 ''titleJa'', u16 ''summaryJa'']"
  unfolding jkeys_clean by (cases "it_titleJa a"; cases "it_summaryJa a") (auto simp: ja_paired_def)

lemma body_genres_200: "body_genres (res_body (response_200 now hrs F n gs)) = gs"
  by (simp add: body_genres_def response_200_def jget_def u16_def genres_json_def jelems_def
      comp_def)

lemma jkeys_200:
  "jkeys (res_body (response_200 now hrs F n gs)) =
     [u16 ''generatedAt'', u16 ''hours'', u16 ''feedCount'', u16 ''totalItems'',
      u16 ''feedsLoaded'', u16 ''genres'']"
  by (simp add: response_200_def jkeys_def)

lemma jget_200:
  "jget (u16 ''hours'') (res_body (response_200 now hrs F n gs)) = Some (JNum hrs)"
  "jget (u16 ''generatedAt'') (res_body (response_200 now hrs F n gs)) = Some (JStr (toISOString now))"
  by (simp_all add: response_200_def jget_def u16_def)

lemma handler_cases:
  assumes "request_translated e q st = (heap, tc, sent)"
  shows "(\<exists>gs. genres_loop heap [] = Inr gs
           \<and> handler e q st =
               (response_200 (e_now_response e) (handler_hours q) (fst (request_feeds e st)) (length heap) gs,
                \<lparr>s_feedsCache = snd (request_feeds e st), s_tlCache = tc\<rparr>, sent))
       \<or> ((\<exists>a \<in> set heap. item_genre a \<in> set object_prototype_keys)
           \<and> handler e q st =
               (response_500 TypeError_push,
                \<lparr>s_feedsCache = snd (request_feeds e st), s_tlCache = tc\<rparr>, sent))"
proof (cases "genres_loop heap []")
  case (Inl err)
  then show ?thesis using assms genres_loop_error [OF Inl] by (simp add: handler_def)
next
  case (Inr gs)
  then show ?thesis using assms by (simp add: handler_def)
qed

lemma status_200 [simp]: "res_status (response_200 now hrs F n gs) = 200"
  by (simp add: response_200_def)

lemma status_500 [simp]: "res_status (response_500 err) = 500"
  by (simp add: response_500_def)

subsection \<open>The example request\<close>

lemma ex_feeds: "request_feeds ex_env initial_state =
   (FEEDS_FALLBACK, \<lparr>fc_at = 1709210096789, fc_feeds = FEEDS_FALLBACK\<rparr>)"
  by (simp add: request_feeds_def ex_env_def initial_state_def loadFeeds_def FEEDS_CACHE_MS_def)

lemma ex_settled:
  "ex_settle FEEDS_FALLBACK =
     map (\<lambda>f. (f, ex_fetch f)) [FEEDS_FALLBACK ! 2, FEEDS_FALLBACK ! 0, FEEDS_FALLBACK ! 1,
        FEEDS_FALLBACK ! 3, FEEDS_FALLBACK ! 4, FEEDS_FALLBACK ! 5, FEEDS_FALLBACK ! 6,
        FEEDS_FALLBACK ! 7]"
  by (simp add: ex_settle_def FEEDS_FALLBACK_def u16_def)

lemma ex_iso:
  "toISOString 1709206496000 = u16 ''2024-02-29T11:34:56.000Z''"
  "toISOString 1709202896000 = u16 ''2024-02-29T10:34:56.000Z''"
  "toISOString 1709102096000 = u16 ''2024-02-28T06:34:56.000Z''"
  "toISOString 1709210096789 = u16 ''2024-02-29T12:34:56.789Z''"
  unfolding toISOString_def Let_def
  by (simp_all add: year_string_def pad2_def pad3_def pad4_def pad6_def digit_def u16_def)

lemmas norm_defs =
  normalize_def ex_entry_def js_or_def truthy_def or_empty_def getTime_def ex_dateParse_def
  isFinite_def trim_def is_space_def toIso_def entry_summary_def ex_item_def u16_def
  FEEDS_FALLBACK_def

lemma ex_normalize_24:
  "normalize ex_dateParse (Fin 1709123696789) (FEEDS_FALLBACK ! 2)
     (ex_entry ''New Techno EP'' ''https://example.com/a'' ''2024-02-29T11:34:56.000Z'' '' Out  now '')
   = Some (ex_item ''Mixmag'' ''New Techno EP'' ''https://example.com/a'' ''2024-02-29T11:34:56.000Z''
        (Some (u16 ''Out now'')) ''Techno'')"
  "normalize ex_dateParse (Fin 1709123696789) (FEEDS_FALLBACK ! 2)
     (ex_entry ''Quiet jazz release'' ''https://example.com/b'' ''2024-02-28T06:34:56.000Z'' '''')
   = None"
  "normalize ex_dateParse (Fin 1709123696789) (FEEDS_FALLBACK ! 6)
     (ex_entry ''New Techno EP (repost)'' ''https://example.com/a'' ''2024-02-29T10:34:56.000Z'' '''')
   = Some (ex_item ''EDM.com'' ''New Techno EP (repost)'' ''https://example.com/a''
        ''2024-02-29T10:34:56.000Z'' None ''House'')"
  unfolding normalize_def Let_def
  by (simp_all add: norm_defs ex_iso [unfolded u16_def, simplified])

lemma ex_normalize_NaN:
  "normalize ex_dateParse NaN (FEEDS_FALLBACK ! 2)
     (ex_entry ''New Techno EP'' ''https://example.com/a'' ''2024-02-29T11:34:56.000Z'' '' Out  now '')
   = Some (ex_item ''Mixmag'' ''New Techno EP'' ''https://example.com/a'' ''2024-02-29T11:34:56.000Z''
        (Some (u16 ''Out now'')) ''Techno'')"
  "normalize ex_dateParse NaN (FEEDS_FALLBACK ! 2)
     (ex_entry ''Quiet jazz release'' ''https://example.com/b'' ''2024-02-28T06:34:56.000Z'' '''')
   = Some (ex_item ''Mixmag'' ''Quiet jazz release'' ''https://example.com/b''
        ''2024-02-28T06:34:56.000Z'' None ''Techno'')"
  "normalize ex_dateParse NaN (FEEDS_FALLBACK ! 6)
     (ex_entry ''New Techno EP (repost)'' ''https://example.com/a'' ''2024-02-29T10:34:56.000Z'' '''')
   = Some (ex_item ''EDM.com'' ''New Techno EP (repost)'' ''https://example.com/a''
        ''2024-02-29T10:34:56.000Z'' None ''House'')"
  unfolding normalize_def Let_def
  by (simp_all add: norm_defs ex_iso [unfolded u16_def, simplified])

lemma ex_fetches:
  "ex_fetch (FEEDS_FALLBACK ! 2) =
     Fetched [ex_entry ''New Techno EP'' ''https://example.com/a'' ''2024-02-29T11:34:56.000Z''
                   '' Out  now '',
              ex_entry ''Quiet jazz release'' ''https://example.com/b''
                   ''2024-02-28T06:34:56.000Z'' '''']"
  "ex_fetch (FEEDS_FALLBACK ! 6) =
     Fetched [ex_entry ''New Techno EP (repost)'' ''https://example.com/a''
                   ''2024-02-29T10:34:56.000Z'' '''']"
  "ex_fetch (FEEDS_FALLBACK ! 0) = FetchFailed"
  "ex_fetch (FEEDS_FALLBACK ! Suc 0) = FetchFailed"
  "ex_fetch (FEEDS_FALLBACK ! 3) = FetchFailed"
  "ex_fetch (FEEDS_FALLBACK ! 4) = FetchFailed"
  "ex_fetch (FEEDS_FALLBACK ! 5) = FetchFailed"
  "ex_fetch (FEEDS_FALLBACK ! 7) = FetchFailed"
  by (simp_all add: ex_fetch_def FEEDS_FALLBACK_def u16_def)

lemma ex_hours: "handler_hours None = Fin 24"
  "handler_hours (Some (QStr (u16 ''abc''))) = NaN"
  by (simp_all add: handler_hours_absent handler_hours_NaN Number_of_abc)

lemma ex_since: "handler_since 1709210096789 (Fin 24) = Fin 1709123696789"
  by (simp add: since_Fin)

lemma ex_allItems_24:
  "request_allItems ex_env None initial_state =
     [ex_item ''Mixmag'' ''New Techno EP'' ''https://example.com/a'' ''2024-02-29T11:34:56.000Z''
        (Some (u16 ''Out now'')) ''Techno'',
      ex_item ''EDM.com'' ''New Techno EP (repost)'' ''https://example.com/a''
        ''2024-02-29T10:34:56.000Z'' None ''House'']"
proof -
  have e: "e_dateParse ex_env = ex_dateParse" "e_now_request ex_env = 1709210096789"
    "e_settle ex_env = ex_settle"
    by (simp_all add: ex_env_def)
  show ?thesis
    unfolding request_allItems_def ex_feeds e ex_hours ex_since fst_conv ex_settled
    by (simp add: feed_items_def ex_fetches ex_normalize_24)
qed

lemma ex_allItems_NaN:
  "request_allItems ex_env (Some (QStr (u16 ''abc''))) initial_state =
     [ex_item ''Mixmag'' ''New Techno EP'' ''https://example.com/a'' ''2024-02-29T11:34:56.000Z''
        (Some (u16 ''Out now'')) ''Techno'',
      ex_item ''Mixmag'' ''Quiet jazz release'' ''https://example.com/b''
        ''2024-02-28T06:34:56.000Z'' None ''Techno'',
      ex_item ''EDM.com'' ''New Techno EP (repost)'' ''https://example.com/a''
        ''2024-02-29T10:34:56.000Z'' None ''House'']"
proof -
  have e: "e_dateParse ex_env = ex_dateParse" "e_now_request ex_env = 1709210096789"
    "e_settle ex_env = ex_settle"
    by (simp_all add: ex_env_def)
  show ?thesis
    unfolding request_allItems_def ex_feeds e ex_hours since_NaN fst_conv ex_settled
    by (simp add: feed_items_def ex_fetches ex_normalize_NaN)
qed

lemma request_deduped_alt:
  "request_deduped e q st = dedupe {} (sort_newest_first (request_allItems e q st))"
  by (simp add: request_deduped_def aggregate_def request_allItems_def)

lemma ex_deduped_24:
  "request_deduped ex_env None initial_state =
     [ex_item ''Mixmag'' ''New Techno EP'' ''https://example.com/a'' ''2024-02-29T11:34:56.000Z''
        (Some (u16 ''Out now'')) ''Techno'']"
  unfolding request_deduped_alt ex_allItems_24
  by (simp add: sort_newest_first_def published_key_def or_empty_def ex_item_def u16_def)

lemma ex_deduped_NaN:
  "request_deduped ex_env (Some (QStr (u16 ''abc''))) initial_state =
     [ex_item ''Mixmag'' ''New Techno EP'' ''https://example.com/a'' ''2024-02-29T11:34:56.000Z''
        (Some (u16 ''Out now'')) ''Techno'',
      ex_item ''Mixmag'' ''Quiet jazz release'' ''https://example.com/b''
        ''2024-02-28T06:34:56.000Z'' None ''Techno'']"
  unfolding request_deduped_alt ex_allItems_NaN
  by (simp add: sort_newest_first_def published_key_def or_empty_def ex_item_def u16_def)

lemma ex_genres:
  "item_genre (ex_item ''Mixmag'' ''New Techno EP'' ''https://example.com/a''
      ''2024-02-29T11:34:56.000Z'' (Some (u16 ''Out now'')) ''Techno'') = u16 ''Techno''"
  "item_genre (ex_item ''Mixmag'' ''Quiet jazz release'' ''https://example.com/b''
        ''2024-02-28T06:34:56.000Z'' None ''Techno'') = u16 ''Techno''"
  by (simp_all add: item_genre_def ex_item_def pickGenre_def GENRES_def toLowerCase_def
      lower_unit_def u16_def)

end
